theory Spec2Isabelle
  imports Main
begin

section \<open>Data model\<close>

text \<open>
  The importer of \<^verbatim>\<open>import_enhance.py\<close> reads a file line by line; each line is a JSON
  record denoting a message tree or a single message, and is written to the database
  session unless it is already there. Identifiers are UUIDs, kept as strings.
\<close>

type_synonym uuid = string

text \<open>
  Modelled from the spec: the enumeration \<^verbatim>\<open>message_tree_state.State\<close> of
  \<^verbatim>\<open>oasst_backend\<close> is not part of the source. The importer names two of its members,
  \<open>BACKLOG_RANKING\<close> and \<open>RANKING\<close>; the other members stand for the states a caller
  of \<^verbatim>\<open>import_tree\<close> could pass besides.
\<close>

datatype TreeState =
    INITIAL_PROMPT_REVIEW
  | GROWING
  | END_LOW_GRADE
  | RANKING
  | READY_FOR_SCORING
  | READY_FOR_EXPORT
  | SCORING_FAILED
  | ABORTED_LOW_GRADE
  | HALTED_BY_MODERATOR
  | BACKLOG_RANKING
  | PROMPT_LOTTERY_WAITING

text \<open>
  Modelled from the spec: the input types of \<^verbatim>\<open>oasst_data\<close> are not part of the source.
  \<^verbatim>\<open>ExportMessageNode\<close> has the fields \<^verbatim>\<open>import_message\<close> reads (\<open>node_text\<close> is its
  \<^verbatim>\<open>text\<close>). The optional fields are options; \<^verbatim>\<open>replies\<close> is a list, the absent
  list being the empty one (\<^verbatim>\<open>if message.replies:\<close> treats both alike).
\<close>

datatype ExportMessageNode = ExportMessageNode
  (message_id: uuid)
  (node_text: string)
  (role: string)
  (lang: "string option")
  (synthetic: "bool option")
  (model_name: "string option")
  (review_count: "int option")
  (replies: "ExportMessageNode list")

text \<open>
  \<^verbatim>\<open>ExportMessageTree\<close>: the tree id and the root message. An absent tree id is the
  empty string, the falsy value of \<^verbatim>\<open>not tree.message_tree_id\<close>.
\<close>

record ExportMessageTree =
  message_tree_id :: uuid
  prompt :: ExportMessageNode

text \<open>The row of table \<^verbatim>\<open>message\<close>, with the columns \<^verbatim>\<open>import_message\<close> sets.\<close>

record Message =
  msg_id :: uuid
  msg_message_tree_id :: uuid
  frontend_message_id :: uuid
  parent_id :: "uuid option"
  msg_review_count :: int
  msg_lang :: string
  review_result :: bool
  msg_synthetic :: bool
  msg_model_name :: "string option"
  msg_role :: string
  api_client_id :: uuid
  payload_type :: string
  payload :: string
  user_id :: uuid
  children_count :: int

text \<open>The row of table \<^verbatim>\<open>message_tree_state\<close>.\<close>

record MessageTreeState =
  mts_message_tree_id :: uuid
  goal_tree_size :: int
  max_depth :: int
  max_children_count :: int
  state :: TreeState
  origin :: string
  active :: bool
  mts_lang :: string

text \<open>
  The persisted store: the rows of the three tables the importer touches, in insertion
  order.
\<close>

record Store =
  api_clients :: "uuid list"
  messages :: "Message list"
  message_tree_states :: "MessageTreeState list"

text \<open>
  A database session (\<^verbatim>\<open>sqlmodel.Session\<close>) with its one transaction: the rows a read
  inside the session sees (the session's own flushed rows among them), the rows the
  transaction began with, and whether a flush has failed, after which the session
  refuses all work until it is rolled back.
\<close>

record Session = Store +
  tx_begin :: Store
  needs_rollback :: bool

text \<open>The fields of \<^verbatim>\<open>class Importer\<close> set by \<^verbatim>\<open>__init__\<close>.\<close>

record Importer =
  imp_origin :: string
  imp_model_name :: "string option"
  imp_api_client_id :: uuid
  imp_user_id :: uuid

text \<open>
  The exceptions of the program, as values: \<open>JSONDecodeError\<close> of \<^verbatim>\<open>json.loads\<close>,
  \<open>ValidationError\<close> of \<^verbatim>\<open>pydantic.parse_obj_as\<close>, the two \<^verbatim>\<open>ValueError\<close>s of
  \<^verbatim>\<open>import_tree\<close> (\<open>InvalidTreeId\<close>, \<open>StateNotSupported\<close>), and the exceptions of
  the libraries that reach \<^verbatim>\<open>except Exception\<close>: \<open>AttributeError\<close> (a JSON value
  that is not an object has no \<^verbatim>\<open>get\<close>), \<open>IntegrityError\<close> (a flush that inserts a
  second row under an existing key), \<open>PendingRollbackError\<close> (any use of a session
  after a failed flush) and \<open>MultipleResultsFound\<close> (of \<^verbatim>\<open>one_or_none\<close>).
\<close>

datatype error =
    JSONDecodeError
  | ValidationError
  | InvalidTreeId
  | StateNotSupported TreeState
  | AttributeError
  | IntegrityError
  | PendingRollbackError
  | MultipleResultsFound

text \<open>
  One line of the input file, by what the library calls of \<^verbatim>\<open>handle_json_line\<close> make
  of it: \<^verbatim>\<open>json.loads\<close> fails (\<open>NotJson\<close>) or yields a value; the value is no object
  (\<open>NotObject\<close>) or an object; the object has a truthy \<^verbatim>\<open>message_tree_id\<close>
  (\<open>TreeRecord\<close>), or else a truthy \<^verbatim>\<open>message_id\<close> (\<open>MessageRecord\<close>), or neither
  (\<open>OtherRecord\<close>); \<^verbatim>\<open>pydantic.parse_obj_as\<close> rejects the object (\<open>Rejected\<close>) or
  returns the typed record (\<open>Parsed\<close>).
\<close>

datatype 'a parse_obj = Rejected | Parsed 'a

datatype json_line =
    NotJson
  | NotObject
  | TreeRecord "ExportMessageTree parse_obj"
  | MessageRecord "ExportMessageNode parse_obj"
  | OtherRecord

datatype CommitMode = COMMIT | ROLLBACK

section \<open>The session\<close>

definition IMPORT_API_CLIENT_ID :: uuid where
  "IMPORT_API_CLIENT_ID = ''bd8fde8b-1d8e-4e9a-9966-e96d000f8363''"

text \<open>\<^verbatim>\<open>Query.one_or_none()\<close>: no row, the one row, or \<^verbatim>\<open>MultipleResultsFound\<close>.\<close>

fun one_or_none :: "'a list \<Rightarrow> error + 'a option" where
  "one_or_none [] = Inr None"
| "one_or_none [x] = Inr (Some x)"
| "one_or_none (x # y # zs) = Inl MultipleResultsFound"

text \<open>
  The session that \<^verbatim>\<open>session_factory()\<close> opens on a store, and the store that a commit
  of a session leaves.
\<close>

definition open_session :: "Store \<Rightarrow> Session" where
  "open_session store =
     \<lparr>api_clients = api_clients store, messages = messages store,
      message_tree_states = message_tree_states store,
      tx_begin = store, needs_rollback = False\<rparr>"

definition committed :: "Session \<Rightarrow> Store" where
  "committed db =
     \<lparr>api_clients = api_clients db, messages = messages db,
      message_tree_states = message_tree_states db\<rparr>"

text \<open>
  A flush that the database refuses: SQLAlchemy rolls the transaction back, so the rows
  written since it began are gone, and the session needs a rollback before it can be
  used again. The importer never calls \<^verbatim>\<open>rollback\<close>.
\<close>

definition failed_flush :: "Session \<Rightarrow> Session" where
  "failed_flush db =
     \<lparr>api_clients = api_clients (tx_begin db), messages = messages (tx_begin db),
      message_tree_states = message_tree_states (tx_begin db),
      tx_begin = tx_begin db, needs_rollback = True\<rparr>"

text \<open>
  The two look-ups of the importer. A query on a session that needs a rollback raises
  \<open>PendingRollbackError\<close>.
\<close>

definition fetch_message :: "uuid \<Rightarrow> Session \<Rightarrow> error + Message option" where
  "fetch_message mid db =
     (if needs_rollback db then Inl PendingRollbackError
      else one_or_none (filter (\<lambda>m. msg_id m = mid) (messages db)))"

definition fetch_message_tree_state :: "uuid \<Rightarrow> Session \<Rightarrow> error + MessageTreeState option" where
  "fetch_message_tree_state tid db =
     (if needs_rollback db then Inl PendingRollbackError
      else one_or_none (filter (\<lambda>s. mts_message_tree_id s = tid) (message_tree_states db)))"

text \<open>
  \<^verbatim>\<open>db.add(row); db.flush()\<close>. The tables are declared in \<^verbatim>\<open>oasst_backend.models\<close>,
  outside the source: \<^verbatim>\<open>message.id\<close> and \<^verbatim>\<open>message_tree_state.message_tree_id\<close> are
  their primary keys. The flush appends the row; on a session that needs a rollback it
  raises \<open>PendingRollbackError\<close>; for a key that is in the table already it raises
  \<open>IntegrityError\<close>, and the flush has failed: the transaction is rolled back and the
  session is left in need of a rollback.
\<close>

definition add_message :: "Message \<Rightarrow> Session \<Rightarrow> (error + unit) \<times> Session" where
  "add_message msg db =
     (if needs_rollback db then (Inl PendingRollbackError, db)
      else if msg_id msg \<in> set (map msg_id (messages db))
      then (Inl IntegrityError, failed_flush db)
      else (Inr (), db\<lparr>messages := messages db @ [msg]\<rparr>))"

definition add_message_tree_state ::
  "MessageTreeState \<Rightarrow> Session \<Rightarrow> (error + unit) \<times> Session" where
  "add_message_tree_state mts db =
     (if needs_rollback db then (Inl PendingRollbackError, db)
      else if mts_message_tree_id mts \<in> set (map mts_message_tree_id (message_tree_states db))
      then (Inl IntegrityError, failed_flush db)
      else (Inr (), db\<lparr>message_tree_states := message_tree_states db @ [mts]\<rparr>))"

text \<open>
  Modelled from the spec: \<^verbatim>\<open>PromptRepository.update_children_counts\<close> is not part of
  the source; it recounts the child counter of every message of the given tree as the
  number of rows that name it as their parent. The importer calls it, and
  \<^verbatim>\<open>db.refresh\<close> below, only right after a flush that succeeded.
\<close>

definition update_children_counts :: "uuid \<Rightarrow> Session \<Rightarrow> Session" where
  "update_children_counts tid db =
     db\<lparr>messages :=
        map (\<lambda>m. if msg_message_tree_id m = tid
                 then m\<lparr>children_count :=
                         int (length (filter (\<lambda>c. parent_id c = Some (msg_id m)) (messages db)))\<rparr>
                 else m)
            (messages db)\<rparr>"

text \<open>\<^verbatim>\<open>db.refresh(msg)\<close>: the object takes the values of its row.\<close>

definition refresh :: "Message \<Rightarrow> Session \<Rightarrow> Message" where
  "refresh msg db =
     (case filter (\<lambda>m. msg_id m = msg_id msg) (messages db) of
        [] \<Rightarrow> msg
      | m # _ \<Rightarrow> m)"

section \<open>The importer\<close>

text \<open>
  \<^verbatim>\<open>Importer.__init__\<close>: the API client with the well-known id is looked up and
  created when missing (\<^verbatim>\<open>create_api_client\<close> with \<^verbatim>\<open>force_id\<close>). The system user
  \<^verbatim>\<open>import\<close> is resolved by the user repository, outside the source: its id is a
  parameter. The look-up raises on a session that needs a rollback.
\<close>

definition Importer_init ::
  "Session \<Rightarrow> string \<Rightarrow> string option \<Rightarrow> uuid \<Rightarrow> error + Importer \<times> Session" where
  "Importer_init db orig mname uid =
     (if needs_rollback db then Inl PendingRollbackError
      else
        (let db' = (case filter (\<lambda>a. a = IMPORT_API_CLIENT_ID) (api_clients db) of
                      [] \<Rightarrow> db\<lparr>api_clients := api_clients db @ [IMPORT_API_CLIENT_ID]\<rparr>
                    | _ # _ \<Rightarrow> db)
         in Inr (\<lparr>imp_origin = orig, imp_model_name = mname,
                  imp_api_client_id = IMPORT_API_CLIENT_ID, imp_user_id = uid\<rparr>, db')))"

text \<open>Python's \<^verbatim>\<open>x or d\<close> on an optional string and on an optional integer.\<close>

definition str_or :: "string option \<Rightarrow> string \<Rightarrow> string" where
  "str_or x d = (case x of None \<Rightarrow> d | Some s \<Rightarrow> if s = [] then d else s)"

definition str_or_opt :: "string option \<Rightarrow> string option \<Rightarrow> string option" where
  "str_or_opt x d = (case x of None \<Rightarrow> d | Some s \<Rightarrow> if s = [] then d else Some s)"

definition int_or :: "int option \<Rightarrow> int \<Rightarrow> int" where
  "int_or x d = (case x of None \<Rightarrow> d | Some n \<Rightarrow> if n = 0 then d else n)"

text \<open>The \<^verbatim>\<open>Message(...)\<close> object that \<^verbatim>\<open>import_message\<close> builds (lines 52 to 68).\<close>

definition new_message ::
  "Importer \<Rightarrow> ExportMessageNode \<Rightarrow> uuid \<Rightarrow> uuid option \<Rightarrow> Message" where
  "new_message imp message tree_id parent =
     \<lparr>msg_id = message_id message,
      msg_message_tree_id = tree_id,
      frontend_message_id = message_id message,
      parent_id = parent,
      msg_review_count = int_or (review_count message) 0,
      msg_lang = str_or (lang message) ''en'',
      review_result = True,
      msg_synthetic = (case synthetic message of None \<Rightarrow> True | Some b \<Rightarrow> b),
      msg_model_name = str_or_opt (model_name message) (imp_model_name imp),
      msg_role = role message,
      api_client_id = imp_api_client_id imp,
      payload_type = ''MessagePayload'',
      payload = node_text message,
      user_id = imp_user_id imp,
      children_count = 0\<rparr>"

text \<open>
  \<^verbatim>\<open>Importer.import_message\<close>: add and flush the message, recount the children when it
  has no parent, refresh it, then import the replies in order under it. An exception
  leaves the function with the session as the failed flush left it.
\<close>

fun import_message ::
    "Importer \<Rightarrow> ExportMessageNode \<Rightarrow> uuid \<Rightarrow> uuid option \<Rightarrow> Session \<Rightarrow> (error + Message) \<times> Session"
  and import_replies ::
    "Importer \<Rightarrow> ExportMessageNode list \<Rightarrow> uuid \<Rightarrow> uuid \<Rightarrow> Session \<Rightarrow> (error + unit) \<times> Session"
where
  "import_message imp (ExportMessageNode mid txt rl lg syn mn rc rs) tree_id parent db =
     (let msg = new_message imp (ExportMessageNode mid txt rl lg syn mn rc rs) tree_id parent
      in case add_message msg db of
           (Inl e, db1) \<Rightarrow> (Inl e, db1)
         | (Inr _, db1) \<Rightarrow>
             (let db2 = (if parent = None then update_children_counts (msg_id msg) db1 else db1);
                  msg' = refresh msg db2
              in case import_replies imp rs tree_id (msg_id msg') db2 of
                   (Inl e, db3) \<Rightarrow> (Inl e, db3)
                 | (Inr _, db3) \<Rightarrow> (Inr msg', db3)))"
| "import_replies imp [] tree_id parent db = (Inr (), db)"
| "import_replies imp (r # rs) tree_id parent db =
     (case import_message imp r tree_id (Some parent) db of
        (Inl e, db1) \<Rightarrow> (Inl e, db1)
      | (Inr _, db1) \<Rightarrow> import_replies imp rs tree_id parent db1)"

text \<open>\<^verbatim>\<open>Importer.import_tree\<close> (lines 79 to 100).\<close>

definition import_tree ::
  "Importer \<Rightarrow> ExportMessageTree \<Rightarrow> TreeState \<Rightarrow> Session
     \<Rightarrow> (error + MessageTreeState \<times> Message) \<times> Session" where
  "import_tree imp tree st db =
     (if message_tree_id tree = [] \<or> message_tree_id tree \<noteq> message_id (prompt tree)
      then (Inl InvalidTreeId, db)
      else case import_message imp (prompt tree) (message_id (prompt tree)) None db of
             (Inl e, db1) \<Rightarrow> (Inl e, db1)
           | (Inr root_msg, db1) \<Rightarrow>
               if st \<noteq> BACKLOG_RANKING \<and> st \<noteq> RANKING
               then (Inl (StateNotSupported st), db1)
               else
                 (let act = (st = RANKING);
                      mts = \<lparr>mts_message_tree_id = msg_id root_msg,
                             goal_tree_size = 0,
                             max_depth = 0,
                             max_children_count = 0,
                             state = st,
                             origin = imp_origin imp,
                             active = act,
                             mts_lang = (if msg_lang root_msg = [] then ''en''
                                         else msg_lang root_msg)\<rparr>
                  in case add_message_tree_state mts db1 of
                       (Inl e, db2) \<Rightarrow> (Inl e, db2)
                     | (Inr _, db2) \<Rightarrow> (Inr (mts, root_msg), db2)))"

section \<open>One line\<close>

text \<open>\<^verbatim>\<open>max_count and imported_count >= max_count\<close>: \<^verbatim>\<open>None\<close> and \<open>0\<close> are falsy.\<close>

definition reached :: "int option \<Rightarrow> int \<Rightarrow> bool" where
  "reached max_count imported_count =
     (case max_count of None \<Rightarrow> False | Some m \<Rightarrow> m \<noteq> 0 \<and> imported_count \<ge> m)"

text \<open>
  The body of the \<^verbatim>\<open>try\<close> of \<^verbatim>\<open>handle_json_line\<close> (lines 104 to 128): the count it
  reaches, or the exception that leaves it, and the session either way.
\<close>

definition handle_json_line_try ::
  "json_line \<Rightarrow> Importer \<Rightarrow> int \<Rightarrow> int option \<Rightarrow> int \<Rightarrow> Session \<Rightarrow> (error + int) \<times> Session" where
  "handle_json_line_try line imp num_activate max_count imported_count db =
     (case line of
        NotJson \<Rightarrow> (Inl JSONDecodeError, db)
      | NotObject \<Rightarrow> (Inl AttributeError, db)
      | TreeRecord p \<Rightarrow>
          (case p of
             Rejected \<Rightarrow> (Inl ValidationError, db)
           | Parsed tree \<Rightarrow>
               (case fetch_message_tree_state (message_tree_id tree) db of
                  Inl e \<Rightarrow> (Inl e, db)
                | Inr existing_mts \<Rightarrow>
                    (case (case existing_mts of
                             Some _ \<Rightarrow> (Inr imported_count, db)
                           | None \<Rightarrow>
                               (let st = (if imported_count \<ge> num_activate
                                          then BACKLOG_RANKING else RANKING)
                                in case import_tree imp tree st db of
                                     (Inl e, db1) \<Rightarrow> (Inl e, db1)
                                   | (Inr _, db1) \<Rightarrow> (Inr (imported_count + 1), db1))) of
                       (Inl e, db1) \<Rightarrow> (Inl e, db1)
                     | (Inr c, db1) \<Rightarrow>
                         if reached max_count c then (Inr c, db1) else (Inr c, db1))))
      | MessageRecord p \<Rightarrow>
          (case p of
             Rejected \<Rightarrow> (Inl ValidationError, db)
           | Parsed message \<Rightarrow>
               (case fetch_message (message_id message) db of
                  Inl e \<Rightarrow> (Inl e, db)
                | Inr (Some _) \<Rightarrow> (Inr imported_count, db)
                | Inr None \<Rightarrow>
                    (case import_message imp message (message_id message) None db of
                       (Inl e, db1) \<Rightarrow> (Inl e, db1)
                     | (Inr _, db1) \<Rightarrow> (Inr (imported_count + 1), db1))))
      | OtherRecord \<Rightarrow> (Inr imported_count, db))"

text \<open>
  \<^verbatim>\<open>handle_json_line\<close>: the three \<^verbatim>\<open>except\<close> clauses log and fall through to
  \<^verbatim>\<open>return imported_count\<close>, the value the parameter had on entry.
\<close>

definition handle_json_line ::
  "json_line \<Rightarrow> Importer \<Rightarrow> int \<Rightarrow> int option \<Rightarrow> int \<Rightarrow> Session \<Rightarrow> int \<times> Session" where
  "handle_json_line line imp num_activate max_count imported_count db =
     (case handle_json_line_try line imp num_activate max_count imported_count db of
        (Inr c, db1) \<Rightarrow> (c, db1)
      | (Inl JSONDecodeError, db1) \<Rightarrow> (imported_count, db1)
      | (Inl ValidationError, db1) \<Rightarrow> (imported_count, db1)
      | (Inl _, db1) \<Rightarrow> (imported_count, db1))"

section \<open>The file\<close>

text \<open>The \<^verbatim>\<open>for line in file_in\<close> loop of \<^verbatim>\<open>import_tx\<close>, with its \<^verbatim>\<open>break\<close>.\<close>

fun import_loop ::
  "Importer \<Rightarrow> int \<Rightarrow> int option \<Rightarrow> json_line list \<Rightarrow> int \<Rightarrow> Session \<Rightarrow> int \<times> Session" where
  "import_loop imp num_activate max_count [] imported_count db = (imported_count, db)"
| "import_loop imp num_activate max_count (line # rest) imported_count db =
     (case handle_json_line line imp num_activate max_count imported_count db of
        (c, db1) \<Rightarrow>
          if reached max_count c then (c, db1)
          else import_loop imp num_activate max_count rest c db1)"

text \<open>
  \<^verbatim>\<open>import_tx\<close>: an exception of \<^verbatim>\<open>Importer(...)\<close> leaves the function; the loop
  returns the count.
\<close>

definition import_tx ::
  "json_line list \<Rightarrow> string \<Rightarrow> string option \<Rightarrow> uuid \<Rightarrow> int \<Rightarrow> int option \<Rightarrow> Session
     \<Rightarrow> (error + int) \<times> Session" where
  "import_tx file_in orig mname uid num_activate max_count db =
     (case Importer_init db orig mname uid of
        Inl e \<Rightarrow> (Inl e, db)
      | Inr (importer, db0) \<Rightarrow>
          (case import_loop importer num_activate max_count file_in 0 db0 of
             (imported_count, db1) \<Rightarrow> (Inr imported_count, db1)))"

text \<open>
  Modelled from the spec: \<^verbatim>\<open>db_utils.managed_tx_function\<close> is not part of the source;
  it runs the function in one unit of work, a session opened on the persisted store.
  When the function returns it commits the writes (\<open>COMMIT\<close>) or rolls them back
  (\<open>ROLLBACK\<close>) and returns the function's result. An exception of the function
  leaves the run: nothing is persisted and no result is returned. So does the
  exception of the commit itself: as for every other use of a session that needs a
  rollback, SQLAlchemy's \<^verbatim>\<open>commit\<close> raises \<open>PendingRollbackError\<close> there.
\<close>

definition managed_tx_function ::
  "CommitMode \<Rightarrow> (Session \<Rightarrow> (error + int) \<times> Session) \<Rightarrow> Store
     \<Rightarrow> (error + int) \<times> Store" where
  "managed_tx_function auto_commit f store =
     (case f (open_session store) of
        (Inl e, db) \<Rightarrow> (Inl e, store)
      | (Inr r, db) \<Rightarrow>
          (case auto_commit of
             COMMIT \<Rightarrow>
               if needs_rollback db then (Inl PendingRollbackError, store)
               else (Inr r, committed db)
           | ROLLBACK \<Rightarrow> (Inr r, store)))"

definition import_file ::
  "json_line list \<Rightarrow> string \<Rightarrow> string option \<Rightarrow> uuid \<Rightarrow> int \<Rightarrow> int option \<Rightarrow> bool \<Rightarrow> Store
     \<Rightarrow> (error + int) \<times> Store" where
  "import_file file_in orig mname uid num_activate max_count dry_run store =
     managed_tx_function (if dry_run then ROLLBACK else COMMIT)
       (import_tx file_in orig mname uid num_activate max_count) store"

section \<open>Rows a record stands for\<close>

text \<open>
  The rows that importing a node creates when every insert succeeds: the node's own
  message, then those of its replies, depth first in reply order. They serve to state
  what \<open>import_message\<close> leaves in the session.
\<close>

fun node_rows :: "Importer \<Rightarrow> uuid \<Rightarrow> uuid option \<Rightarrow> ExportMessageNode \<Rightarrow> Message list" where
  "node_rows imp tree_id parent (ExportMessageNode mid txt rl lg syn mn rc rs) =
     new_message imp (ExportMessageNode mid txt rl lg syn mn rc rs) tree_id parent
       # concat (map (node_rows imp tree_id (Some mid)) rs)"

text \<open>A row with its derived child counter reset, to compare rows up to the recount.\<close>

definition clear_count :: "Message \<Rightarrow> Message" where
  "clear_count m = m\<lparr>children_count := 0\<rparr>"

definition reply_rows :: "Importer \<Rightarrow> uuid \<Rightarrow> uuid \<Rightarrow> ExportMessageNode list \<Rightarrow> Message list" where
  "reply_rows imp tree_id parent rs = concat (map (node_rows imp tree_id (Some parent)) rs)"

text \<open>
  \<open>extends_by db db' ys\<close>: session \<open>db'\<close> is \<open>db\<close> with the rows \<open>ys\<close> appended to
  table \<^verbatim>\<open>message\<close> (up to child counters), all under identifiers that are new and
  pairwise different; the other tables and the state of the transaction are the same.
\<close>

definition extends_by :: "Session \<Rightarrow> Session \<Rightarrow> Message list \<Rightarrow> bool" where
  "extends_by db db' ys \<longleftrightarrow>
     api_clients db' = api_clients db \<and>
     message_tree_states db' = message_tree_states db \<and>
     map clear_count (messages db') = map clear_count (messages db) @ ys \<and>
     distinct (map msg_id ys) \<and>
     set (map msg_id ys) \<inter> set (map msg_id (messages db)) = {} \<and>
     tx_begin db' = tx_begin db \<and>
     needs_rollback db' = needs_rollback db"

text \<open>
  \<open>flush_failed db e db'\<close>: what an exception \<open>e\<close> of a flush in or after session
  \<open>db\<close> leaves. A session that needed a rollback already is untouched; otherwise the
  transaction is rolled back.
\<close>

definition flush_failed :: "Session \<Rightarrow> error \<Rightarrow> Session \<Rightarrow> bool" where
  "flush_failed db e db' \<longleftrightarrow>
     (if needs_rollback db then db' = db \<and> e = PendingRollbackError
      else db' = failed_flush db \<and> e = IntegrityError)"

text \<open>
  What a call that imports \<open>rows\<close> leaves: all of them appended when the call returns
  normally, a failed flush when it raises.
\<close>

definition rows_outcome :: "Message list \<Rightarrow> Session \<Rightarrow> (error + 'a) \<times> Session \<Rightarrow> bool" where
  "rows_outcome rows db out \<longleftrightarrow>
     (\<forall>v. fst out = Inr v \<longrightarrow> extends_by db (snd out) rows) \<and>
     (\<forall>e. fst out = Inl e \<longrightarrow> flush_failed db e (snd out))"

text \<open>All nodes of a record, the node first, then those of its replies in order.\<close>

fun subnodes :: "ExportMessageNode \<Rightarrow> ExportMessageNode list" where
  "subnodes (ExportMessageNode mid txt rl lg syn mn rc rs) =
     ExportMessageNode mid txt rl lg syn mn rc rs # concat (map subnodes rs)"

section \<open>Sample records\<close>

definition sample_node :: "uuid \<Rightarrow> ExportMessageNode list \<Rightarrow> ExportMessageNode" where
  "sample_node i rs = ExportMessageNode i ''hello'' ''prompter'' None None None None rs"

definition sample_tree :: "uuid \<Rightarrow> ExportMessageNode list \<Rightarrow> ExportMessageTree" where
  "sample_tree i rs = \<lparr>message_tree_id = i, prompt = sample_node i rs\<rparr>"

definition sample_reply :: ExportMessageNode where
  "sample_reply = ExportMessageNode ''r'' ''hi'' ''assistant'' (Some ''de'') (Some False)
                    (Some ''gpt'') (Some 2) []"

definition mismatched_tree :: ExportMessageTree where
  "mismatched_tree = \<lparr>message_tree_id = ''m'', prompt = sample_node ''x'' []\<rparr>"

definition six_records :: "json_line list" where
  "six_records =
     [MessageRecord (Parsed (sample_node ''a'' [])), TreeRecord (Parsed (sample_tree ''b'' [])),
      MessageRecord (Parsed (sample_node ''c'' [])), TreeRecord (Parsed (sample_tree ''d'' [])),
      MessageRecord (Parsed (sample_node ''e'' [])), TreeRecord (Parsed (sample_tree ''g'' []))]"

definition empty_store :: Store where
  "empty_store = \<lparr>api_clients = [], messages = [], message_tree_states = []\<rparr>"

definition sample_importer :: Importer where
  "sample_importer = \<lparr>imp_origin = ''f'', imp_model_name = None,
                       imp_api_client_id = IMPORT_API_CLIENT_ID, imp_user_id = ''u''\<rparr>"

text \<open>The session of a run on the empty store, when the importer has been set up.\<close>

definition sample_session :: Session where
  "sample_session = (open_session empty_store)\<lparr>api_clients := [IMPORT_API_CLIENT_ID]\<rparr>"

text \<open>That session after the tree \<open>a\<close> with its reply \<open>a1\<close> has been imported.\<close>

definition sample_session_a :: Session where
  "sample_session_a =
     snd (import_loop sample_importer 0 None
            [TreeRecord (Parsed (sample_tree ''a'' [sample_node ''a1'' []]))] 0 sample_session)"

definition sample_store_a :: Store where
  "sample_store_a = committed sample_session_a"

text \<open>The session after the message \<open>a\<close> has been imported.\<close>

definition sample_session_m :: Session where
  "sample_session_m =
     snd (import_loop sample_importer 1 None
            [MessageRecord (Parsed (sample_node ''a'' []))] 0 sample_session)"

definition sample_session_g :: Session where
  "sample_session_g =
     snd (import_tree sample_importer (sample_tree ''a'' [sample_node ''a1'' []]) GROWING
            sample_session)"

section \<open>Basic facts\<close>

lemma reached_None [simp]: "reached None c = False"
  by (simp add: reached_def)

lemma reached_zero [simp]: "reached (Some 0) c = False"
  by (simp add: reached_def)

lemma try_max_count:
  "handle_json_line_try l imp na mx c db = handle_json_line_try l imp na None c db"
  by (simp add: handle_json_line_try_def
           split: json_line.splits parse_obj.splits sum.splits option.splits prod.splits)

lemma handle_max_count:
  "handle_json_line l imp na mx c db = handle_json_line l imp na None c db"
  by (simp add: handle_json_line_def try_max_count [of l imp na mx])

lemma handle_json_line_eq:
  "handle_json_line l imp na mx c db =
     (case handle_json_line_try l imp na mx c db of
        (Inl e, db1) \<Rightarrow> (c, db1) | (Inr c', db1) \<Rightarrow> (c', db1))"
  by (simp add: handle_json_line_def split: prod.splits sum.splits error.splits)

lemma msg_id_refresh [simp]: "msg_id (refresh msg db) = msg_id msg"
proof -
  have "\<And>ms. ms = filter (\<lambda>m. msg_id m = msg_id msg) (messages db) \<Longrightarrow>
    msg_id (case ms of [] \<Rightarrow> msg | m # _ \<Rightarrow> m) = msg_id msg"
    by (metis (mono_tags, lifting) filter_eq_ConsD list.case_eq_if list.sel(1) list.set_intros(1) mem_Collect_eq set_filter list.collapse)
  then show ?thesis by (simp add: refresh_def)
qed

lemma import_step:
  "handle_json_line l imp na mx c db = (c', db') \<Longrightarrow> c' = c \<or> c' = c + 1"
  by (auto simp: handle_json_line_eq handle_json_line_try_def Let_def
           split: json_line.splits parse_obj.splits sum.splits option.splits prod.splits if_splits)

lemma import_loop_append:
  "\<not> reached mx c \<Longrightarrow> import_loop imp na mx (pre @ rest) c db =
     (case import_loop imp na mx pre c db of
        (c1, db1) \<Rightarrow> if reached mx c1 then (c1, db1) else import_loop imp na mx rest c1 db1)"
  by (induction pre arbitrary: c db) (auto split: prod.splits)

lemma tx_begin_update [simp]:
  "tx_begin (db\<lparr>messages := x\<rparr>) = tx_begin db"
  "tx_begin (db\<lparr>api_clients := y\<rparr>) = tx_begin db"
  "tx_begin (db\<lparr>message_tree_states := z\<rparr>) = tx_begin db"
  by (cases db, simp)+

lemma committed_open [simp]: "committed (open_session store) = store"
  by (simp add: committed_def open_session_def)

lemma open_session_active [simp]: "\<not> needs_rollback (open_session store)"
  by (simp add: open_session_def)

lemma frame_update_children_counts [simp]:
  "api_clients (update_children_counts t db) = api_clients db"
  "message_tree_states (update_children_counts t db) = message_tree_states db"
  "tx_begin (update_children_counts t db) = tx_begin db"
  "needs_rollback (update_children_counts t db) = needs_rollback db"
  "map msg_id (messages (update_children_counts t db)) = map msg_id (messages db)"
  "map clear_count (messages (update_children_counts t db)) = map clear_count (messages db)"
  by (simp_all add: update_children_counts_def clear_count_def)

lemma msg_id_clear_count [simp]: "msg_id (clear_count m) = msg_id m"
  by (simp add: clear_count_def)

lemma ids_clear_count: "map msg_id (map clear_count ms) = map msg_id ms"
  by (induction ms) simp_all

lemma extends_by_ids:
  "extends_by db db' ys \<Longrightarrow> map msg_id (messages db') = map msg_id (messages db) @ map msg_id ys"
proof -
  assume "extends_by db db' ys"
  then have "map msg_id (map clear_count (messages db')) = map msg_id (map clear_count (messages db) @ ys)"
    by (simp only: extends_by_def)
  then show ?thesis by (simp only: ids_clear_count map_append)
qed

lemma extends_by_refl: "extends_by db db []"
  by (simp add: extends_by_def)

lemma extends_by_trans:
  assumes "extends_by db db1 ys1" and "extends_by db1 db2 ys2"
  shows "extends_by db db2 (ys1 @ ys2)"
proof -
  have ids: "map msg_id (messages db1) = map msg_id (messages db) @ map msg_id ys1"
    using assms(1) by (rule extends_by_ids)
  have d: "set (map msg_id ys2) \<inter> set (map msg_id (messages db1)) = {}"
    using assms(2) by (simp add: extends_by_def)
  from assms d show ?thesis
    unfolding extends_by_def ids by auto
qed

lemma extends_by_add:
  assumes "add_message m db = (Inr u, db1)" and "children_count m = 0"
  shows "extends_by db db1 [m]"
  using assms by (auto simp: add_message_def extends_by_def clear_count_def split: if_splits)

lemma extends_by_recount: "extends_by db (update_children_counts t db) []"
  by (simp add: extends_by_def)

lemma add_message_Inl: "add_message m db = (Inl e, db1) \<Longrightarrow> flush_failed db e db1"
  by (auto simp: add_message_def flush_failed_def split: if_splits)

lemma add_message_Inr: "add_message m db = (Inr u, db1) \<Longrightarrow> \<not> needs_rollback db"
  by (auto simp: add_message_def split: if_splits)

lemma flush_failed_after:
  assumes "extends_by db db1 ys" and "\<not> needs_rollback db" and "flush_failed db1 e db'"
  shows "flush_failed db e db'"
proof -
  have "tx_begin db1 = tx_begin db" "\<not> needs_rollback db1"
    using assms(1,2) by (simp_all add: extends_by_def)
  then have "failed_flush db1 = failed_flush db" "db' = failed_flush db1" "e = IntegrityError"
    using assms(3) by (simp_all add: failed_flush_def flush_failed_def)
  then show ?thesis using assms(2) by (simp add: flush_failed_def)
qed

lemma new_message_sel [simp]:
  "msg_id (new_message imp n t p) = message_id n"
  "children_count (new_message imp n t p) = 0"
  by (simp_all add: new_message_def)

lemma import_message_unfold:
  "import_message imp n t p db =
     (case add_message (new_message imp n t p) db of
        (Inl e, db1) \<Rightarrow> (Inl e, db1)
      | (Inr u, db1) \<Rightarrow>
          (case import_replies imp (replies n) t (message_id n)
                  (if p = None then update_children_counts (message_id n) db1 else db1) of
             (Inl e, db3) \<Rightarrow> (Inl e, db3)
           | (Inr u, db3) \<Rightarrow>
               (Inr (refresh (new_message imp n t p)
                       (if p = None then update_children_counts (message_id n) db1 else db1)),
                db3)))"
  by (cases n) (auto simp: Let_def split: sum.splits prod.splits)

lemma import_message_active:
  "import_message imp n t p db = (Inr m, db') \<Longrightarrow> \<not> needs_rollback db"
  by (auto simp: import_message_unfold split: sum.splits prod.splits dest: add_message_Inr)

lemma node_rows_unfold:
  "node_rows imp t p n = new_message imp n t p # reply_rows imp t (message_id n) (replies n)"
  by (cases n) (simp add: reply_rows_def)

lemma reply_rows_simps [simp]:
  "reply_rows imp t q [] = []"
  "reply_rows imp t q (r # rs) = node_rows imp t (Some q) r @ reply_rows imp t q rs"
  by (simp_all add: reply_rows_def)

lemma filter_fresh_id:
  "msg_id (m::Message) \<notin> set (map msg_id (xs::Message list)) \<Longrightarrow>
     filter (\<lambda>r. msg_id r = msg_id m) xs = []"
  by (induction xs) auto

lemma refresh_fresh:
  assumes "extends_by db db2 [m]"
  shows "clear_count (refresh m db2) = m"
proof -
  have eq: "map clear_count (messages db2) = map clear_count (messages db) @ [m]"
    and fresh: "msg_id m \<notin> set (map msg_id (messages db))"
    using assms by (auto simp: extends_by_def)
  from eq obtain xs x' where db2': "messages db2 = xs @ x'"
    and xs: "map clear_count xs = map clear_count (messages db)" and x': "map clear_count x' = [m]"
    by (auto simp: map_eq_append_conv)
  from x' obtain x where xx: "x' = [x]" and x: "clear_count x = m"
    by (auto simp: map_eq_Cons_conv)
  have db2: "messages db2 = xs @ [x]" using db2' xx by simp
  have "map msg_id (map clear_count xs) = map msg_id (map clear_count (messages db))"
    using xs by simp
  then have "map msg_id xs = map msg_id (messages db)" by (simp only: ids_clear_count)
  with fresh have "msg_id m \<notin> set (map msg_id xs)" by simp
  then have "filter (\<lambda>r. msg_id r = msg_id m) xs = []"
    by (rule filter_fresh_id)
  moreover have "msg_id x = msg_id m" using x by (metis msg_id_clear_count)
  ultimately have "filter (\<lambda>r. msg_id r = msg_id m) (messages db2) = [x]"
    by (simp add: db2)
  then show ?thesis by (simp add: refresh_def x)
qed

lemma rows_outcome_replies:
  assumes IH: "\<And>r p db. r \<in> set rs \<Longrightarrow>
                 rows_outcome (node_rows imp t p r) db (import_message imp r t p db)"
  shows "rows_outcome (reply_rows imp t q rs) db (import_replies imp rs t q db)"
  using IH
proof (induction rs arbitrary: db)
  case Nil
  show ?case by (simp add: rows_outcome_def extends_by_refl)
next
  case (Cons r rs)
  obtain res db1 where out1: "import_message imp r t (Some q) db = (res, db1)"
    by (cases "import_message imp r t (Some q) db")
  have o1: "rows_outcome (node_rows imp t (Some q) r) db (import_message imp r t (Some q) db)"
    by (rule Cons.prems) simp
  show ?case
  proof (cases res)
    case (Inl e)
    then have "import_replies imp (r # rs) t q db = (Inl e, db1)"
      by (simp add: out1)
    moreover have "flush_failed db e db1"
      using o1 Inl by (simp add: rows_outcome_def out1)
    ultimately show ?thesis by (simp add: rows_outcome_def)
  next
    case (Inr v)
    then have out: "import_replies imp (r # rs) t q db = import_replies imp rs t q db1"
      by (simp add: out1)
    have e1: "extends_by db db1 (node_rows imp t (Some q) r)"
      using o1 Inr by (simp add: rows_outcome_def out1)
    have act: "\<not> needs_rollback db"
      using out1 Inr by (auto dest: import_message_active)
    have o2: "rows_outcome (reply_rows imp t q rs) db1 (import_replies imp rs t q db1)"
      by (rule Cons.IH) (rule Cons.prems, simp)
    have "extends_by db (snd (import_replies imp rs t q db1))
            (node_rows imp t (Some q) r @ reply_rows imp t q rs)"
      if "fst (import_replies imp rs t q db1) = Inr v'" for v'
    proof -
      have "extends_by db1 (snd (import_replies imp rs t q db1)) (reply_rows imp t q rs)"
        using o2 that by (simp add: rows_outcome_def)
      with e1 show ?thesis by (rule extends_by_trans)
    qed
    moreover have "flush_failed db e (snd (import_replies imp rs t q db1))"
      if "fst (import_replies imp rs t q db1) = Inl e" for e
    proof -
      have "flush_failed db1 e (snd (import_replies imp rs t q db1))"
        using o2 that by (simp add: rows_outcome_def)
      with e1 act show ?thesis by (rule flush_failed_after)
    qed
    ultimately show ?thesis
      unfolding rows_outcome_def out by simp
  qed
qed

lemma extends_by_first:
  assumes "add_message (new_message imp n t p) db = (Inr u, db1)"
  shows "extends_by db (if p = None then update_children_counts (message_id n) db1 else db1)
           [new_message imp n t p]"
proof -
  have a: "extends_by db db1 [new_message imp n t p]"
    using assms by (rule extends_by_add) simp
  have "extends_by db (update_children_counts (message_id n) db1) ([new_message imp n t p] @ [])"
    using a extends_by_recount by (rule extends_by_trans)
  with a show ?thesis by auto
qed

lemma rows_outcome_message:
  "rows_outcome (node_rows imp t p n) db (import_message imp n t p db)"
proof (induction n arbitrary: p db)
  case (ExportMessageNode mid tx rl lg syn mn rc rs)
  let ?n = "ExportMessageNode mid tx rl lg syn mn rc rs"
  let ?msg = "new_message imp ?n t p"
  have IH: "\<And>r p db. r \<in> set rs \<Longrightarrow>
              rows_outcome (node_rows imp t p r) db (import_message imp r t p db)"
    by (rule ExportMessageNode.IH)
  obtain res db1 where add: "add_message ?msg db = (res, db1)"
    by (cases "add_message ?msg db")
  show ?case
  proof (cases res)
    case (Inl e)
    then have "import_message imp ?n t p db = (Inl e, db1)"
      using add by (simp add: import_message_unfold)
    moreover have "flush_failed db e db1"
      using add Inl by (auto dest: add_message_Inl)
    ultimately show ?thesis by (simp add: rows_outcome_def)
  next
    case (Inr u)
    let ?db2 = "if p = None then update_children_counts (message_id ?n) db1 else db1"
    have add': "add_message ?msg db = (Inr u, db1)" using add Inr by simp
    have e1: "extends_by db ?db2 [?msg]"
      using add' by (rule extends_by_first)
    have act: "\<not> needs_rollback db"
      using add' by (rule add_message_Inr)
    have o2: "rows_outcome (reply_rows imp t mid rs) ?db2 (import_replies imp rs t mid ?db2)"
      using IH by (rule rows_outcome_replies)
    have s: "snd (import_message imp ?n t p db) = snd (import_replies imp rs t mid ?db2)"
      using add' by (auto simp: import_message_unfold split: prod.splits sum.splits)
    have f1: "\<exists>v'. fst (import_replies imp rs t mid ?db2) = Inr v'"
      if "fst (import_message imp ?n t p db) = Inr v" for v
      using add' that by (auto simp: import_message_unfold split: prod.splits sum.splits)
    have f2: "fst (import_replies imp rs t mid ?db2) = Inl e"
      if "fst (import_message imp ?n t p db) = Inl e" for e
      using add' that by (auto simp: import_message_unfold split: prod.splits sum.splits)
    have "extends_by db (snd (import_replies imp rs t mid ?db2)) (node_rows imp t p ?n)"
      if "fst (import_message imp ?n t p db) = Inr v" for v
    proof -
      from f1 [OF that] obtain v' where "fst (import_replies imp rs t mid ?db2) = Inr v'" ..
      then have "extends_by ?db2 (snd (import_replies imp rs t mid ?db2)) (reply_rows imp t mid rs)"
        using o2 by (simp add: rows_outcome_def)
      with e1 have "extends_by db (snd (import_replies imp rs t mid ?db2))
                      ([?msg] @ reply_rows imp t mid rs)"
        by (rule extends_by_trans)
      then show ?thesis by (simp add: node_rows_unfold)
    qed
    moreover have "flush_failed db e (snd (import_replies imp rs t mid ?db2))"
      if "fst (import_message imp ?n t p db) = Inl e" for e
    proof -
      have "flush_failed ?db2 e (snd (import_replies imp rs t mid ?db2))"
        using o2 f2 [OF that] by (simp add: rows_outcome_def)
      with e1 act show ?thesis by (rule flush_failed_after)
    qed
    ultimately show ?thesis
      unfolding rows_outcome_def s by blast
  qed
qed

lemma import_message_returns:
  assumes "import_message imp n t p db = (Inr m, db')"
  shows "clear_count m = new_message imp n t p"
proof -
  obtain res db1 where add: "add_message (new_message imp n t p) db = (res, db1)"
    by (cases "add_message (new_message imp n t p) db")
  show ?thesis
  proof (cases res)
    case (Inl e)
    with assms add show ?thesis by (simp add: import_message_unfold)
  next
    case (Inr u)
    let ?db2 = "if p = None then update_children_counts (message_id n) db1 else db1"
    have "m = refresh (new_message imp n t p) ?db2"
      using assms add Inr by (auto simp: import_message_unfold split: prod.splits sum.splits)
    moreover have "extends_by db ?db2 [new_message imp n t p]"
    proof -
      have "add_message (new_message imp n t p) db = (Inr u, db1)" using add Inr by simp
      then show ?thesis by (rule extends_by_first)
    qed
    ultimately show ?thesis by (simp only: refresh_fresh)
  qed
qed

lemma import_message_Inr:
  assumes "import_message imp n t p db = (Inr m, db')"
  shows "extends_by db db' (node_rows imp t p n)"
  using rows_outcome_message [of imp t p n db] assms by (simp add: rows_outcome_def)

lemma import_message_Inl:
  assumes "import_message imp n t p db = (Inl e, db')"
  shows "flush_failed db e db'"
  using rows_outcome_message [of imp t p n db] assms by (simp add: rows_outcome_def)

section \<open>Look-ups, skipped records and the run\<close>

lemma one_or_none_Nil: "one_or_none xs = Inr None \<longleftrightarrow> xs = []"
  by (cases xs rule: one_or_none.cases) simp_all

lemma one_or_none_found:
  "xs \<noteq> [] \<Longrightarrow> (\<exists>x. one_or_none xs = Inr (Some x)) \<or> one_or_none xs = Inl MultipleResultsFound"
  by (cases xs rule: one_or_none.cases) simp_all

lemma one_or_none_error: "one_or_none xs = Inl e \<Longrightarrow> e = MultipleResultsFound"
  by (cases xs rule: one_or_none.cases) simp_all

lemma filter_member: "a \<in> set (map f xs) \<Longrightarrow> filter (\<lambda>x. f x = a) xs \<noteq> []"
  by (induction xs) auto

lemma fetch_message_tree_state_error:
  "fetch_message_tree_state t db = Inl e \<Longrightarrow> e = PendingRollbackError \<or> e = MultipleResultsFound"
  by (auto simp: fetch_message_tree_state_def split: if_splits dest: one_or_none_error)

lemma fetch_message_error:
  "fetch_message t db = Inl e \<Longrightarrow> e = PendingRollbackError \<or> e = MultipleResultsFound"
  by (auto simp: fetch_message_def split: if_splits dest: one_or_none_error)

lemma skip_tree:
  assumes "message_tree_id tree \<in> set (map mts_message_tree_id (message_tree_states db))"
  shows "handle_json_line (TreeRecord (Parsed tree)) imp na mx c db = (c, db)"
proof -
  have "filter (\<lambda>s. mts_message_tree_id s = message_tree_id tree) (message_tree_states db) \<noteq> []"
    using assms by (rule filter_member)
  then have "(\<exists>x. one_or_none (filter (\<lambda>s. mts_message_tree_id s = message_tree_id tree)
                (message_tree_states db)) = Inr (Some x)) \<or>
         one_or_none (filter (\<lambda>s. mts_message_tree_id s = message_tree_id tree)
                (message_tree_states db)) = Inl MultipleResultsFound"
    by (rule one_or_none_found)
  then have "(\<exists>x. fetch_message_tree_state (message_tree_id tree) db = Inr (Some x)) \<or>
         (\<exists>e. fetch_message_tree_state (message_tree_id tree) db = Inl e)"
    by (auto simp: fetch_message_tree_state_def)
  then show ?thesis
    by (auto simp: handle_json_line_eq handle_json_line_try_def)
qed

lemma skip_message:
  assumes "message_id message \<in> set (map msg_id (messages db))"
  shows "handle_json_line (MessageRecord (Parsed message)) imp na mx c db = (c, db)"
proof -
  have "filter (\<lambda>m. msg_id m = message_id message) (messages db) \<noteq> []"
    using assms by (rule filter_member)
  then have "(\<exists>x. one_or_none (filter (\<lambda>m. msg_id m = message_id message) (messages db))
                = Inr (Some x)) \<or>
         one_or_none (filter (\<lambda>m. msg_id m = message_id message) (messages db))
                = Inl MultipleResultsFound"
    by (rule one_or_none_found)
  then have "(\<exists>x. fetch_message (message_id message) db = Inr (Some x)) \<or>
         (\<exists>e. fetch_message (message_id message) db = Inl e)"
    by (auto simp: fetch_message_def)
  then show ?thesis
    by (auto simp: handle_json_line_eq handle_json_line_try_def)
qed

lemma import_message_error:
  "fst (import_message imp n t p db) = Inl e \<Longrightarrow> e = IntegrityError \<or> e = PendingRollbackError"
  using import_message_Inl [of imp n t p db e "snd (import_message imp n t p db)"]
  by (cases "import_message imp n t p db") (auto simp: flush_failed_def split: if_splits)

lemma add_message_tree_state_Inl:
  "add_message_tree_state mts db = (Inl e, db1) \<Longrightarrow> e = IntegrityError \<or> e = PendingRollbackError"
  by (auto simp: add_message_tree_state_def split: if_splits)

lemma import_tree_Inr:
  assumes "import_tree imp tree st db = (Inr (mts, m), db')"
  shows "message_tree_id tree = message_id (prompt tree) \<and> message_tree_id tree \<noteq> [] \<and>
         (st = RANKING \<or> st = BACKLOG_RANKING) \<and>
         api_clients db' = api_clients db \<and>
         message_tree_states db' = message_tree_states db @ [mts] \<and>
         message_tree_id tree \<notin> set (map mts_message_tree_id (message_tree_states db)) \<and>
         mts = \<lparr>mts_message_tree_id = message_tree_id tree, goal_tree_size = 0, max_depth = 0,
                max_children_count = 0, state = st, origin = imp_origin imp,
                active = (st = RANKING), mts_lang = str_or (lang (prompt tree)) ''en''\<rparr> \<and>
         \<not> needs_rollback db' \<and>
         (\<exists>db1. import_message imp (prompt tree) (message_id (prompt tree)) None db = (Inr m, db1) \<and>
                messages db' = messages db1)"
proof -
  let ?n = "prompt tree"
  from assms have ok: "message_tree_id tree \<noteq> []" "message_tree_id tree = message_id ?n"
    by (auto simp: import_tree_def split: if_splits)
  obtain res db1 where im: "import_message imp ?n (message_id ?n) None db = (res, db1)"
    by (cases "import_message imp ?n (message_id ?n) None db")
  from assms ok im obtain root where res: "res = Inr root"
    by (cases res) (auto simp: import_tree_def)
  have ext: "extends_by db db1 (node_rows imp (message_id ?n) None ?n)"
    using im res by (auto intro: import_message_Inr)
  have fr: "api_clients db1 = api_clients db" "message_tree_states db1 = message_tree_states db"
    using ext by (simp_all add: extends_by_def)
  have "clear_count root = new_message imp ?n (message_id ?n) None"
    using im res by (auto intro: import_message_returns)
  then have "msg_id (clear_count root) = message_id ?n"
    and "msg_lang (clear_count root) = str_or (lang ?n) ''en''"
    by (simp_all add: new_message_def)
  then have root: "msg_id root = message_id ?n" "msg_lang root = str_or (lang ?n) ''en''"
    by (simp_all add: clear_count_def)
  have ne: "str_or (lang ?n) ''en'' \<noteq> []"
    by (simp add: str_or_def split: option.splits)
  from assms ok im res root ne fr show ?thesis
    by (auto simp: import_tree_def Let_def add_message_tree_state_def split: if_splits)
qed

lemma tree_imported:
  assumes "handle_json_line (TreeRecord (Parsed tree)) imp na mx c db = (c', db')" and "c' \<noteq> c"
  shows "c' = c + 1 \<and> fetch_message_tree_state (message_tree_id tree) db = Inr None \<and>
         (\<exists>r. import_tree imp tree (if c \<ge> na then BACKLOG_RANKING else RANKING) db = (Inr r, db'))"
  using assms
  by (auto simp: handle_json_line_eq handle_json_line_try_def Let_def
           split: sum.splits option.splits prod.splits if_splits)

lemma message_imported:
  assumes "handle_json_line (MessageRecord (Parsed n)) imp na mx c db = (c', db')" and "c' \<noteq> c"
  shows "c' = c + 1 \<and> fetch_message (message_id n) db = Inr None \<and>
         (\<exists>m. import_message imp n (message_id n) None db = (Inr m, db'))"
  using assms
  by (auto simp: handle_json_line_eq handle_json_line_try_def
           split: sum.splits option.splits prod.splits)

lemma imported_active:
  assumes "handle_json_line l imp na mx c db = (c', db')" and "c' \<noteq> c"
  shows "\<not> needs_rollback db'"
proof (cases l)
  case (TreeRecord po)
  show ?thesis
  proof (cases po)
    case Rejected
    with assms TreeRecord show ?thesis
      by (simp add: handle_json_line_eq handle_json_line_try_def)
  next
    case (Parsed tree)
    then obtain r where
      "import_tree imp tree (if c \<ge> na then BACKLOG_RANKING else RANKING) db = (Inr r, db')"
      using assms TreeRecord tree_imported by blast
    then show ?thesis using import_tree_Inr [of imp tree _ db "fst r" "snd r" db'] by simp
  qed
next
  case (MessageRecord po)
  show ?thesis
  proof (cases po)
    case Rejected
    with assms MessageRecord show ?thesis
      by (simp add: handle_json_line_eq handle_json_line_try_def)
  next
    case (Parsed n)
    then obtain m where im: "import_message imp n (message_id n) None db = (Inr m, db')"
      using assms MessageRecord message_imported by blast
    then have "extends_by db db' (node_rows imp (message_id n) None n)"
      by (rule import_message_Inr)
    moreover have "\<not> needs_rollback db" using im by (rule import_message_active)
    ultimately show ?thesis by (simp add: extends_by_def)
  qed
qed (use assms in \<open>simp_all add: handle_json_line_eq handle_json_line_try_def\<close>)

lemma Importer_init_open:
  "\<exists>db0. Importer_init (open_session store) orig mname uid =
           Inr (\<lparr>imp_origin = orig, imp_model_name = mname,
                 imp_api_client_id = IMPORT_API_CLIENT_ID, imp_user_id = uid\<rparr>, db0) \<and>
         IMPORT_API_CLIENT_ID \<in> set (api_clients db0) \<and> \<not> needs_rollback db0"
proof (cases "filter (\<lambda>a. a = IMPORT_API_CLIENT_ID) (api_clients (open_session store))")
  case Nil
  then show ?thesis by (simp add: Importer_init_def)
next
  case (Cons a as)
  then have "filter (\<lambda>a. a = IMPORT_API_CLIENT_ID) (api_clients (open_session store)) \<noteq> []"
    by simp
  then have "IMPORT_API_CLIENT_ID \<in> set (api_clients (open_session store))"
    by (simp add: filter_empty_conv)
  then show ?thesis using Cons by (simp add: Importer_init_def)
qed

lemma Importer_init_present:
  assumes "IMPORT_API_CLIENT_ID \<in> set (api_clients db)" and "\<not> needs_rollback db"
  shows "Importer_init db orig mname uid =
           Inr (\<lparr>imp_origin = orig, imp_model_name = mname,
                 imp_api_client_id = IMPORT_API_CLIENT_ID, imp_user_id = uid\<rparr>, db)"
proof -
  have "filter (\<lambda>a. a = IMPORT_API_CLIENT_ID) (api_clients db) \<noteq> []"
    using assms(1) by (simp add: filter_empty_conv)
  then show ?thesis using assms(2)
    by (cases "filter (\<lambda>a. a = IMPORT_API_CLIENT_ID) (api_clients db)")
       (simp_all add: Importer_init_def)
qed

lemma import_file_loop:
  "import_file ls orig mname uid na mx dry store =
     (case Importer_init (open_session store) orig mname uid of
        Inl e \<Rightarrow> (Inl e, store)
      | Inr (importer, db0) \<Rightarrow>
          (case import_loop importer na mx ls 0 db0 of
             (c, db1) \<Rightarrow>
               if dry then (Inr c, store)
               else if needs_rollback db1 then (Inl PendingRollbackError, store)
               else (Inr c, committed db1)))"
  by (simp add: import_file_def managed_tx_function_def import_tx_def
           split: prod.splits sum.splits)

section \<open>The loop and the errors of a line\<close>

lemma import_loop_zero:
  "import_loop imp na (Some 0) ls c db = import_loop imp na None ls c db"
proof (induction ls arbitrary: c db)
  case Nil
  show ?case by simp
next
  case (Cons l ls)
  show ?case
    by (simp add: handle_max_count [of l imp na "Some 0"] Cons.IH split: prod.splits)
qed

lemma caught:
  assumes "fst (handle_json_line_try l imp na mx c db) = Inl e"
  shows "handle_json_line l imp na mx c db = (c, snd (handle_json_line_try l imp na mx c db))"
  using assms by (cases "handle_json_line_try l imp na mx c db") (simp add: handle_json_line_eq)


lemma not_json_noop: "handle_json_line NotJson imp na mx c db = (c, db)"
  by (simp add: handle_json_line_def handle_json_line_try_def)


lemma import_loop_skip_line:
  assumes noop: "\<And>c db. handle_json_line l imp na mx c db = (c, db)"
    and "\<not> reached mx c"
  shows "import_loop imp na mx (pre @ l # post) c db = import_loop imp na mx (pre @ post) c db"
  using assms(2)
proof (induction pre arbitrary: c db)
  case Nil
  then show ?case by (simp add: noop)
next
  case (Cons p pre)
  show ?case
    by (auto simp: Cons.IH split: prod.splits)
qed


lemma subnodes_self: "n \<in> set (subnodes n)"
  by (cases n) simp

lemma node_rows_members:
  "r \<in> set (node_rows imp t p n) \<Longrightarrow>
     \<exists>n' \<in> set (subnodes n). \<exists>p'. r = new_message imp n' t p'"
proof (induction n arbitrary: p r)
  case (ExportMessageNode mid tx rl lg syn mn rc rs)
  let ?n = "ExportMessageNode mid tx rl lg syn mn rc rs"
  from ExportMessageNode.prems
  consider "r = new_message imp ?n t p"
    | x where "x \<in> set rs" "r \<in> set (node_rows imp t (Some mid) x)"
    by auto
  then show ?case
  proof cases
    case 1
    then show ?thesis using subnodes_self [of ?n] by blast
  next
    case 2
    then obtain n' p' where "n' \<in> set (subnodes x)" "r = new_message imp n' t p'"
      using ExportMessageNode.IH by blast
    with 2(1) show ?thesis by auto
  qed
qed


lemma invalid_tree_noop:
  assumes "message_tree_id tree = [] \<or> message_tree_id tree \<noteq> message_id (prompt tree)"
  shows "handle_json_line (TreeRecord (Parsed tree)) imp na mx c db = (c, db)"
proof -
  have "\<And>s. import_tree imp tree s db = (Inl InvalidTreeId, db)"
    using assms by (auto simp: import_tree_def)
  then show ?thesis
    by (simp add: handle_json_line_eq handle_json_line_try_def
             split: sum.splits option.splits)
qed


lemma imported_before:
  assumes "handle_json_line l imp na mx c db = (c', db')" and "c' \<noteq> c"
  shows "\<not> needs_rollback db"
proof (cases l)
  case (TreeRecord po)
  show ?thesis
  proof (cases po)
    case Rejected
    with assms TreeRecord show ?thesis
      by (simp add: handle_json_line_eq handle_json_line_try_def)
  next
    case (Parsed tree)
    then have "fetch_message_tree_state (message_tree_id tree) db = Inr None"
      using assms TreeRecord tree_imported by blast
    then show ?thesis by (auto simp: fetch_message_tree_state_def split: if_splits)
  qed
next
  case (MessageRecord po)
  show ?thesis
  proof (cases po)
    case Rejected
    with assms MessageRecord show ?thesis
      by (simp add: handle_json_line_eq handle_json_line_try_def)
  next
    case (Parsed n)
    then have "fetch_message (message_id n) db = Inr None"
      using assms MessageRecord message_imported by blast
    then show ?thesis by (auto simp: fetch_message_def split: if_splits)
  qed
qed (use assms in \<open>simp_all add: handle_json_line_eq handle_json_line_try_def\<close>)

lemma import_loop_fold:
  "import_loop imp na (Some 0) ls c db =
     foldl (\<lambda>s l. handle_json_line l imp na (Some 0) (fst s) (snd s)) (c, db) ls"
  by (induction ls arbitrary: c db) (simp_all split: prod.splits)

lemma cutoff:
  assumes "0 < m" and "c < m" and "m \<le> fst (import_loop imp na None ls c db)"
  shows "\<exists>pre post. ls = pre @ post \<and> pre \<noteq> [] \<and>
           import_loop imp na (Some m) ls c db = import_loop imp na None pre c db \<and>
           fst (import_loop imp na None pre c db) = m \<and>
           \<not> needs_rollback (snd (import_loop imp na None pre c db)) \<and>
           fst (import_loop imp na None (butlast pre) c db) = m - 1 \<and>
           \<not> needs_rollback (snd (import_loop imp na None (butlast pre) c db)) \<and>
           (\<forall>rest. import_loop imp na (Some m) (pre @ rest) c db =
                     import_loop imp na None pre c db)"
  using assms
proof (induction ls arbitrary: c db)
  case Nil
  then show ?case by simp
next
  case (Cons l ls)
  obtain c1 db1 where h0: "handle_json_line l imp na None c db = (c1, db1)"
    by (cases "handle_json_line l imp na None c db")
  then have h: "handle_json_line l imp na (Some m) c db = (c1, db1)"
    by (simp add: handle_max_count [of l imp na "Some m"])
  have step: "c1 = c \<or> c1 = c + 1" using import_step [OF h0] .
  show ?case
  proof (cases "m \<le> c1")
    case True
    with step Cons.prems(2) have c1: "c1 = m" "c = m - 1" "c1 \<noteq> c" by auto
    have r: "reached (Some m) c1" using c1 Cons.prems(1) by (simp add: reached_def)
    have a: "import_loop imp na (Some m) (l # ls) c db = (c1, db1)"
      using h r by simp
    have b: "import_loop imp na None [l] c db = (c1, db1)"
      using h0 by simp
    have act1: "\<not> needs_rollback db1" using h0 c1(3) by (rule imported_active)
    have act0: "\<not> needs_rollback db" using h0 c1(3) by (rule imported_before)
    have "\<forall>rest. import_loop imp na (Some m) ([l] @ rest) c db = (c1, db1)"
      using h r by simp
    with a b c1 act0 act1 show ?thesis
      by (intro exI [of _ "[l]"] exI [of _ ls]) simp
  next
    case False
    then have lt: "c1 < m" by simp
    then have nr: "\<not> reached (Some m) c1" by (simp add: reached_def)
    have n: "import_loop imp na None (l # ls) c db = import_loop imp na None ls c1 db1"
      using h0 by simp
    with Cons.prems(3) have "m \<le> fst (import_loop imp na None ls c1 db1)" by simp
    with lt Cons.prems(1) obtain pre post where p: "ls = pre @ post" "pre \<noteq> []"
      "import_loop imp na (Some m) ls c1 db1 = import_loop imp na None pre c1 db1"
      "fst (import_loop imp na None pre c1 db1) = m"
      "\<not> needs_rollback (snd (import_loop imp na None pre c1 db1))"
      "fst (import_loop imp na None (butlast pre) c1 db1) = m - 1"
      "\<not> needs_rollback (snd (import_loop imp na None (butlast pre) c1 db1))"
      "\<forall>rest. import_loop imp na (Some m) (pre @ rest) c1 db1 =
                     import_loop imp na None pre c1 db1"
      using Cons.IH [of c1 db1] by blast
    have "import_loop imp na (Some m) (l # ls) c db = import_loop imp na None (l # pre) c db"
      using h h0 nr p(3) by simp
    moreover have "fst (import_loop imp na None (l # pre) c db) = m"
      "\<not> needs_rollback (snd (import_loop imp na None (l # pre) c db))"
      using h0 p(4,5) by simp_all
    moreover have "fst (import_loop imp na None (butlast (l # pre)) c db) = m - 1"
      "\<not> needs_rollback (snd (import_loop imp na None (butlast (l # pre)) c db))"
      using h0 p(2,6,7) by simp_all
    moreover have "\<forall>rest. import_loop imp na (Some m) ((l # pre) @ rest) c db =
                     import_loop imp na None (l # pre) c db"
      using h h0 nr p(8) by simp
    ultimately show ?thesis using p(1)
      by (intro exI [of _ "l # pre"] exI [of _ post]) simp
  qed
qed

lemma import_tree_error:
  assumes "fst (import_tree imp tree st db) = Inl e"
  shows "e = InvalidTreeId \<or> e = IntegrityError \<or> e = PendingRollbackError \<or>
         (e = StateNotSupported st \<and> st \<noteq> BACKLOG_RANKING \<and> st \<noteq> RANKING)"
proof -
  obtain res db1 where im:
    "import_message imp (prompt tree) (message_id (prompt tree)) None db = (res, db1)"
    by (cases "import_message imp (prompt tree) (message_id (prompt tree)) None db")
  have "\<And>e1. res = Inl e1 \<Longrightarrow> e1 = IntegrityError \<or> e1 = PendingRollbackError"
    using import_message_error [of imp "prompt tree" "message_id (prompt tree)" None db] im
    by simp
  with assms im show ?thesis
    by (auto simp: import_tree_def Let_def split: if_splits sum.splits prod.splits
             dest: add_message_tree_state_Inl)
qed

lemma try_error:
  assumes "fst (handle_json_line_try l imp na mx c db) = Inl e"
  shows "e \<in> {JSONDecodeError, AttributeError, ValidationError, PendingRollbackError,
               MultipleResultsFound, IntegrityError} \<or>
         (e = InvalidTreeId \<and>
          (\<exists>tree. l = TreeRecord (Parsed tree) \<and>
             (message_tree_id tree = [] \<or> message_tree_id tree \<noteq> message_id (prompt tree))))"
proof (cases l)
  case NotJson
  with assms show ?thesis by (simp add: handle_json_line_try_def)
next
  case NotObject
  with assms show ?thesis by (simp add: handle_json_line_try_def)
next
  case (TreeRecord po)
  show ?thesis
  proof (cases po)
    case Rejected
    with assms TreeRecord show ?thesis by (simp add: handle_json_line_try_def)
  next
    case (Parsed tr)
    let ?st = "if c \<ge> na then BACKLOG_RANKING else RANKING"
    consider (f) "fetch_message_tree_state (message_tree_id tr) db = Inl e"
      | (t) "fst (import_tree imp tr ?st db) = Inl e"
      using assms TreeRecord Parsed
      by (auto simp: handle_json_line_try_def Let_def
               split: sum.splits option.splits prod.splits if_splits)
    then show ?thesis
    proof cases
      case f
      then show ?thesis by (auto dest: fetch_message_tree_state_error)
    next
      case t
      have bad: "message_tree_id tr = [] \<or> message_tree_id tr \<noteq> message_id (prompt tr)"
        if "e = InvalidTreeId"
      proof -
        have "fst (import_message imp (prompt tr) (message_id (prompt tr)) None db)
                \<noteq> Inl InvalidTreeId"
          using import_message_error by blast
        with t that show ?thesis
          by (auto simp: import_tree_def Let_def split: if_splits sum.splits prod.splits
                   dest: add_message_tree_state_Inl)
      qed
      have "?st = BACKLOG_RANKING \<or> ?st = RANKING" by simp
      with import_tree_error [OF t] bad TreeRecord Parsed show ?thesis by auto
    qed
  qed
next
  case (MessageRecord po)
  show ?thesis
  proof (cases po)
    case Rejected
    with assms MessageRecord show ?thesis by (simp add: handle_json_line_try_def)
  next
    case (Parsed n)
    consider (f) "fetch_message (message_id n) db = Inl e"
      | (m) "fst (import_message imp n (message_id n) None db) = Inl e"
      using assms MessageRecord Parsed
      by (auto simp: handle_json_line_try_def
               split: sum.splits option.splits prod.splits)
    then show ?thesis
    proof cases
      case f
      then show ?thesis by (auto dest: fetch_message_error)
    next
      case m
      then show ?thesis by (auto dest: import_message_error)
    qed
  qed
next
  case OtherRecord
  with assms show ?thesis by (simp add: handle_json_line_try_def)
qed

lemma try_never_unsupported:
  "fst (handle_json_line_try l imp na mx c db) \<noteq> Inl (StateNotSupported st)"
  using try_error [of l imp na mx c db "StateNotSupported st"] by auto

lemma try_invalid:
  assumes "fst (handle_json_line_try l imp na mx c db) = Inl InvalidTreeId"
  shows "\<exists>tree. l = TreeRecord (Parsed tree) \<and>
           (message_tree_id tree = [] \<or> message_tree_id tree \<noteq> message_id (prompt tree))"
  using try_error [OF assms] by auto

lemma sample_isolation:
  "fst (import_file [TreeRecord (Parsed (sample_tree ''a'' [sample_node ''a1'' []])), NotJson, TreeRecord (Parsed (sample_tree ''b'' []))]
      ''f'' None ''u'' 0 None False empty_store) = Inr 2 \<and>
   map mts_message_tree_id (message_tree_states (snd
     (import_file [TreeRecord (Parsed (sample_tree ''a'' [sample_node ''a1'' []])), NotJson, TreeRecord (Parsed (sample_tree ''b'' []))]
      ''f'' None ''u'' 0 None False empty_store))) = [''a'', ''b'']"
  by code_simp

section \<open>Claims\<close>
text \<open>
  Claim C4. A line whose processing raises (a decode failure, a validation failure or
  any other exception) leaves the running count as it was and the exception does not
  leave \<open>handle_json_line\<close>; the loop goes on with the next line, in the session as the
  failed line left it. A line that is not JSON can be deleted from any file without
  change to the run (for a maximum that is not negative); in particular the file of a
  tree record, a line that is not JSON and a second tree record imports both trees and
  returns 2.
\<close>

theorem failure_isolation:
  "(fst (handle_json_line_try l imp na mx c db) = Inl e \<longrightarrow>
      handle_json_line l imp na mx c db = (c, snd (handle_json_line_try l imp na mx c db)) \<and>
      (\<not> reached mx c \<longrightarrow>
         import_loop imp na mx (l # rest) c db =
           import_loop imp na mx rest c (snd (handle_json_line_try l imp na mx c db)))) \<and>
   ((\<forall>m. mx' = Some m \<longrightarrow> 0 \<le> m) \<longrightarrow>
      import_file (pre @ NotJson # post) orig mname uid na' mx' dry store =
        import_file (pre @ post) orig mname uid na' mx' dry store) \<and>
   fst (import_file [TreeRecord (Parsed (sample_tree ''a'' [sample_node ''a1'' []])), NotJson,
                TreeRecord (Parsed (sample_tree ''b'' []))]
      ''f'' None ''u'' 0 None False empty_store) = Inr 2 \<and>
   map mts_message_tree_id (message_tree_states (snd
     (import_file [TreeRecord (Parsed (sample_tree ''a'' [sample_node ''a1'' []])), NotJson,
                TreeRecord (Parsed (sample_tree ''b'' []))]
      ''f'' None ''u'' 0 None False empty_store))) = [''a'', ''b'']"
proof -
  have "import_file (pre @ NotJson # post) orig mname uid na' mx' dry store =
        import_file (pre @ post) orig mname uid na' mx' dry store"
    if nonneg: "\<forall>m. mx' = Some m \<longrightarrow> 0 \<le> m"
  proof -
    have start: "\<not> reached mx' 0"
      using nonneg by (auto simp: reached_def split: option.splits)
    have "\<And>importer db0. import_loop importer na' mx' (pre @ NotJson # post) 0 db0 =
                          import_loop importer na' mx' (pre @ post) 0 db0"
      using not_json_noop start by (rule import_loop_skip_line)
    then show ?thesis by (simp add: import_file_loop split: sum.splits prod.splits)
  qed
  then show ?thesis
    using sample_isolation by (simp add: caught)
qed

theorem failure_isolation_witness:
  "fst (handle_json_line_try NotJson sample_importer 0 None 1 sample_session) = Inl JSONDecodeError \<and>
   handle_json_line NotJson sample_importer 0 None 1 sample_session = (1, sample_session) \<and>
   import_loop sample_importer 0 None [NotJson, OtherRecord] 1 sample_session = (1, sample_session) \<and>
   import_file [TreeRecord (Parsed (sample_tree ''a'' [sample_node ''a1'' []])), NotJson, TreeRecord (Parsed (sample_tree ''b'' []))] ''f'' None ''u'' 0 (Some 5) False empty_store =
     import_file [TreeRecord (Parsed (sample_tree ''a'' [sample_node ''a1'' []])), TreeRecord (Parsed (sample_tree ''b'' []))] ''f'' None ''u'' 0 (Some 5) False empty_store"
proof -
  have n: "\<forall>m. Some (5::int) = Some m \<longrightarrow> 0 \<le> m" by simp
  show ?thesis
    using n failure_isolation [where l = NotJson and imp = sample_importer and na = 0
        and mx = None and c = 1 and db = sample_session and e = JSONDecodeError
        and rest = "[OtherRecord]" and mx' = "Some 5" and pre = "[TreeRecord (Parsed (sample_tree ''a'' [sample_node ''a1'' []]))]" and post = "[TreeRecord (Parsed (sample_tree ''b'' []))]"
        and orig = "''f''" and mname = None and uid = "''u''" and na' = 0 and dry = False
        and store = empty_store]
    by (simp add: handle_json_line_try_def handle_json_line_def)
qed

text \<open>
  Claim C6. A dry run returns what \<open>import_tx\<close> returns, the count of the records it
  imported, and leaves the persisted store as it was. A run that is not dry and
  completes normally commits what \<open>import_tx\<close> wrote; whenever it returns a count, the
  dry run returns the same count. A run that is not dry after a dry one is the run on
  the untouched store.
\<close>

theorem dry_run_rolls_back:
  "import_file file_in orig mname uid na mx True store =
     (fst (import_tx file_in orig mname uid na mx (open_session store)), store) \<and>
   (import_tx file_in orig mname uid na mx (open_session store) = (Inr n, db) \<and>
    \<not> needs_rollback db \<longrightarrow>
      import_file file_in orig mname uid na mx False store = (Inr n, committed db)) \<and>
   (import_file file_in orig mname uid na mx False store = (Inr n', s) \<longrightarrow>
      import_file file_in orig mname uid na mx True store = (Inr n', store)) \<and>
   import_file file_in orig mname uid na mx False
       (snd (import_file file_in orig mname uid na mx True store)) =
     import_file file_in orig mname uid na mx False store"
  by (auto simp: import_file_def managed_tx_function_def split: prod.splits sum.splits if_splits)

theorem dry_run_rolls_back_witness:
  "import_tx [TreeRecord (Parsed (sample_tree ''a'' [sample_node ''a1'' []]))] ''f'' None ''u'' 0 None (open_session empty_store) = (Inr 1, sample_session_a) \<and>
   \<not> needs_rollback sample_session_a \<and>
   import_file [TreeRecord (Parsed (sample_tree ''a'' [sample_node ''a1'' []]))] ''f'' None ''u'' 0 None True empty_store = (Inr 1, empty_store) \<and>
   import_file [TreeRecord (Parsed (sample_tree ''a'' [sample_node ''a1'' []]))] ''f'' None ''u'' 0 None False empty_store = (Inr 1, sample_store_a) \<and>
   map msg_id (messages sample_store_a) = [''a'', ''a1'']"
proof -
  have h1: "import_tx [TreeRecord (Parsed (sample_tree ''a'' [sample_node ''a1'' []]))] ''f'' None ''u'' 0 None (open_session empty_store) =
              (Inr 1, sample_session_a)"
    by code_simp
  have h2: "\<not> needs_rollback sample_session_a" by code_simp
  have e: "map msg_id (messages sample_store_a) = [''a'', ''a1'']" by code_simp
  note t = dry_run_rolls_back [where file_in = "[TreeRecord (Parsed (sample_tree ''a'' [sample_node ''a1'' []]))]" and orig = "''f''" and mname = None
      and uid = "''u''" and na = 0 and mx = None and store = empty_store and n = 1
      and db = sample_session_a and n' = 1 and s = sample_store_a]
  have c1: "import_file [TreeRecord (Parsed (sample_tree ''a'' [sample_node ''a1'' []]))] ''f'' None ''u'' 0 None False empty_store = (Inr 1, sample_store_a)"
    using t [THEN conjunct2, THEN conjunct1, THEN mp, OF conjI [OF h1 h2]]
    by (simp only: sample_store_a_def)
  have c2: "import_file [TreeRecord (Parsed (sample_tree ''a'' [sample_node ''a1'' []]))] ''f'' None ''u'' 0 None True empty_store = (Inr 1, empty_store)"
    using t [THEN conjunct2, THEN conjunct2, THEN conjunct1, THEN mp, OF c1] .
  show ?thesis by (intro conjI h1 h2 c2 c1 e)
qed

text \<open>
  Claim C7. A tree record whose tree id has a tree state in the session, and a message
  record whose message id has a message in the session, change neither the session nor
  the count. So when a run has imported a tree record, a second run on the resulting
  store returns 0 for it and leaves the store, which holds one tree state of that id.
\<close>

theorem existing_record_is_skipped:
  "(message_tree_id tree \<in> set (map mts_message_tree_id (message_tree_states db)) \<longrightarrow>
      handle_json_line (TreeRecord (Parsed tree)) imp na mx c db = (c, db)) \<and>
   (message_id message \<in> set (map msg_id (messages db)) \<longrightarrow>
      handle_json_line (MessageRecord (Parsed message)) imp na mx c db = (c, db)) \<and>
   (import_file [TreeRecord (Parsed tree)] orig mname uid na mx False store = (Inr 1, store1) \<longrightarrow>
      import_file [TreeRecord (Parsed tree)] orig2 mname2 uid2 na2 mx2 dry2 store1 = (Inr 0, store1) \<and>
      length (filter (\<lambda>s. mts_message_tree_id s = message_tree_id tree)
                (message_tree_states store1)) = 1)"
proof (intro conjI impI)
  assume "message_tree_id tree \<in> set (map mts_message_tree_id (message_tree_states db))"
  then show "handle_json_line (TreeRecord (Parsed tree)) imp na mx c db = (c, db)"
    by (rule skip_tree)
next
  assume "message_id message \<in> set (map msg_id (messages db))"
  then show "handle_json_line (MessageRecord (Parsed message)) imp na mx c db = (c, db)"
    by (rule skip_message)
next
  assume run1: "import_file [TreeRecord (Parsed tree)] orig mname uid na mx False store = (Inr 1, store1)"
  obtain importer db0 where init: "Importer_init (open_session store) orig mname uid = Inr (importer, db0)"
    and api0: "IMPORT_API_CLIENT_ID \<in> set (api_clients db0)"
    using Importer_init_open [of store orig mname uid] by blast
  obtain c1 db1 where h: "handle_json_line (TreeRecord (Parsed tree)) importer na mx 0 db0 = (c1, db1)"
    by (cases "handle_json_line (TreeRecord (Parsed tree)) importer na mx 0 db0")
  from run1 have c1: "c1 = 1" and st1: "store1 = committed db1" and act: "\<not> needs_rollback db1"
    by (auto simp: import_file_loop init h split: if_splits)
  from h c1 obtain r where none: "fetch_message_tree_state (message_tree_id tree) db0 = Inr None"
    and it: "import_tree importer tree (if 0 \<ge> na then BACKLOG_RANKING else RANKING) db0 = (Inr r, db1)"
    using tree_imported [of tree importer na mx 0 db0 c1 db1] by auto
  obtain mts m where r: "r = (mts, m)" by (cases r)
  note facts = import_tree_Inr [OF it [unfolded r]]
  have old: "filter (\<lambda>s. mts_message_tree_id s = message_tree_id tree) (message_tree_states db0) = []"
    using none by (auto simp: fetch_message_tree_state_def one_or_none_Nil split: if_splits)
  have new: "message_tree_states db1 = message_tree_states db0 @ [mts]"
    and mid: "mts_message_tree_id mts = message_tree_id tree"
    and api1: "api_clients db1 = api_clients db0"
    using facts by simp_all
  have ms1: "message_tree_states store1 = message_tree_states db1"
    and as1: "api_clients store1 = api_clients db1"
    by (simp_all add: st1 committed_def)
  show "length (filter (\<lambda>s. mts_message_tree_id s = message_tree_id tree)
                (message_tree_states store1)) = 1"
    by (simp add: ms1 new old mid)
  have present: "message_tree_id tree
      \<in> set (map mts_message_tree_id (message_tree_states (open_session store1)))"
    by (simp add: open_session_def ms1 new mid)
  have "IMPORT_API_CLIENT_ID \<in> set (api_clients (open_session store1))"
    using api0 by (simp add: open_session_def as1 api1)
  then obtain importer2 where
    init2: "Importer_init (open_session store1) orig2 mname2 uid2 = Inr (importer2, open_session store1)"
    using Importer_init_present [of "open_session store1" orig2 mname2 uid2] by simp
  have "handle_json_line (TreeRecord (Parsed tree)) importer2 na2 mx2 0 (open_session store1) =
          (0, open_session store1)"
    using present by (rule skip_tree)
  then show "import_file [TreeRecord (Parsed tree)] orig2 mname2 uid2 na2 mx2 dry2 store1 =
               (Inr 0, store1)"
    by (simp add: import_file_loop init2)
qed

theorem existing_record_is_skipped_witness:
  "message_tree_id (sample_tree ''a'' [sample_node ''a1'' []]) \<in> set (map mts_message_tree_id (message_tree_states sample_session_a)) \<and>
   handle_json_line (TreeRecord (Parsed (sample_tree ''a'' [sample_node ''a1'' []]))) sample_importer 0 None 5 sample_session_a = (5, sample_session_a) \<and>
   message_id (sample_node ''a1'' []) \<in> set (map msg_id (messages sample_session_a)) \<and>
   handle_json_line (MessageRecord (Parsed (sample_node ''a1'' []))) sample_importer 0 None 5
       sample_session_a = (5, sample_session_a) \<and>
   import_file [TreeRecord (Parsed (sample_tree ''a'' [sample_node ''a1'' []]))] ''f'' None ''u'' 0 None False empty_store = (Inr 1, sample_store_a) \<and>
   import_file [TreeRecord (Parsed (sample_tree ''a'' [sample_node ''a1'' []]))] ''g'' None ''u'' 3 None False sample_store_a = (Inr 0, sample_store_a) \<and>
   length (filter (\<lambda>s. mts_message_tree_id s = message_tree_id (sample_tree ''a'' [sample_node ''a1'' []]))
             (message_tree_states sample_store_a)) = 1"
proof -
  have h1: "message_tree_id (sample_tree ''a'' [sample_node ''a1'' []]) \<in> set (map mts_message_tree_id (message_tree_states sample_session_a))"
    by code_simp
  have h2: "message_id (sample_node ''a1'' []) \<in> set (map msg_id (messages sample_session_a))"
    by code_simp
  have h3: "import_file [TreeRecord (Parsed (sample_tree ''a'' [sample_node ''a1'' []]))] ''f'' None ''u'' 0 None False empty_store = (Inr 1, sample_store_a)"
    by code_simp
  show ?thesis
    using h1 h2 h3
      existing_record_is_skipped [where tree = "sample_tree ''a'' [sample_node ''a1'' []]" and db = sample_session_a
        and imp = sample_importer and na = 0 and mx = None and c = 5
        and message = "sample_node ''a1'' []" and orig = "''f''" and mname = None
        and uid = "''u''" and store = empty_store and ?store1.0 = sample_store_a
        and ?orig2.0 = "''g''" and ?mname2.0 = None and ?uid2.0 = "''u''" and ?na2.0 = 3
        and ?mx2.0 = None and ?dry2.0 = False]
    by simp
qed

text \<open>
  Claim C10. A run with \<open>max_count = 0\<close> is the run with no maximum. Its loop never
  stops before the end of the file: it hands every line, in order, to
  \<open>handle_json_line\<close>, which does with it what it does when there is no maximum.
\<close>

theorem max_count_zero_unlimited:
  "import_file file_in orig mname uid na (Some 0) dry store =
     import_file file_in orig mname uid na None dry store \<and>
   import_loop imp na (Some 0) ls c db =
     foldl (\<lambda>s l. handle_json_line l imp na (Some 0) (fst s) (snd s)) (c, db) ls \<and>
   handle_json_line l imp na (Some 0) c db = handle_json_line l imp na None c db"
proof (intro conjI)
  show "import_file file_in orig mname uid na (Some 0) dry store =
     import_file file_in orig mname uid na None dry store"
    by (simp add: import_file_loop import_loop_zero split: sum.splits prod.splits)
  show "import_loop imp na (Some 0) ls c db =
     foldl (\<lambda>s l. handle_json_line l imp na (Some 0) (fst s) (snd s)) (c, db) ls"
    by (rule import_loop_fold)
  show "handle_json_line l imp na (Some 0) c db = handle_json_line l imp na None c db"
    by (rule handle_max_count)
qed

theorem max_count_zero_unlimited_witness:
  "import_file [MessageRecord (Parsed (sample_node ''a'' [])), TreeRecord (Parsed (sample_tree ''b'' []))] ''f'' None ''u'' 0 (Some 0) False empty_store =
     import_file [MessageRecord (Parsed (sample_node ''a'' [])), TreeRecord (Parsed (sample_tree ''b'' []))] ''f'' None ''u'' 0 None False empty_store \<and>
   fst (import_file [MessageRecord (Parsed (sample_node ''a'' [])), TreeRecord (Parsed (sample_tree ''b'' []))] ''f'' None ''u'' 0 (Some 0) False empty_store) = Inr 2 \<and>
   map msg_id (messages (snd
     (import_file [MessageRecord (Parsed (sample_node ''a'' [])), TreeRecord (Parsed (sample_tree ''b'' []))] ''f'' None ''u'' 0 (Some 0) False empty_store))) = [''a'', ''b''] \<and>
   map mts_message_tree_id (message_tree_states (snd
     (import_file [MessageRecord (Parsed (sample_node ''a'' [])), TreeRecord (Parsed (sample_tree ''b'' []))] ''f'' None ''u'' 0 (Some 0) False empty_store))) = [''b'']"
proof -
  have e1: "fst (import_file [MessageRecord (Parsed (sample_node ''a'' [])), TreeRecord (Parsed (sample_tree ''b'' []))] ''f'' None ''u'' 0 None False empty_store) = Inr 2"
    by code_simp
  have e2: "map msg_id (messages (snd
     (import_file [MessageRecord (Parsed (sample_node ''a'' [])), TreeRecord (Parsed (sample_tree ''b'' []))] ''f'' None ''u'' 0 None False empty_store))) = [''a'', ''b'']"
    by code_simp
  have e3: "map mts_message_tree_id (message_tree_states (snd
     (import_file [MessageRecord (Parsed (sample_node ''a'' [])), TreeRecord (Parsed (sample_tree ''b'' []))] ''f'' None ''u'' 0 None False empty_store))) = [''b'']"
    by code_simp
  have t: "import_file [MessageRecord (Parsed (sample_node ''a'' [])), TreeRecord (Parsed (sample_tree ''b'' []))] ''f'' None ''u'' 0 (Some 0) False empty_store =
     import_file [MessageRecord (Parsed (sample_node ''a'' [])), TreeRecord (Parsed (sample_tree ''b'' []))] ''f'' None ''u'' 0 None False empty_store"
    using max_count_zero_unlimited [where file_in = "[MessageRecord (Parsed (sample_node ''a'' [])), TreeRecord (Parsed (sample_tree ''b'' []))]" and orig = "''f''"
        and mname = None and uid = "''u''" and na = 0 and dry = False and store = empty_store
        and imp = sample_importer and ls = "[]" and c = 0 and db = sample_session
        and l = NotJson]
    by (rule conjunct1)
  show ?thesis
    by (intro conjI t) (simp_all only: t e1 e2 e3)
qed

text \<open>
  Claim C1, as amended. A mismatch of tree id and root message id raised by
  \<open>import_tree\<close> (\<open>InvalidTreeId\<close>) does not leave \<open>handle_json_line\<close>: session and
  count stay as they were, and for a maximum that is not negative the run over the file
  is the run over the file without that line. The other structural error,
  \<open>StateNotSupported\<close>, is never raised by a line: the classifier passes only
  \<open>BACKLOG_RANKING\<close> and \<open>RANKING\<close>.
\<close>

theorem invalid_tree_id_is_absorbed:
  "(fst (handle_json_line_try l imp na mx c db) = Inl InvalidTreeId \<longrightarrow>
      handle_json_line l imp na mx c db = (c, db) \<and>
      ((\<forall>m. mx' = Some m \<longrightarrow> 0 \<le> m) \<longrightarrow>
         import_file (pre @ l # post) orig mname uid na' mx' dry store =
           import_file (pre @ post) orig mname uid na' mx' dry store)) \<and>
   fst (handle_json_line_try l imp na mx c db) \<noteq> Inl (StateNotSupported st)"
proof (intro conjI impI)
  show "fst (handle_json_line_try l imp na mx c db) \<noteq> Inl (StateNotSupported st)"
    by (rule try_never_unsupported)
next
  assume "fst (handle_json_line_try l imp na mx c db) = Inl InvalidTreeId"
  then obtain tree where l: "l = TreeRecord (Parsed tree)"
    and bad: "message_tree_id tree = [] \<or> message_tree_id tree \<noteq> message_id (prompt tree)"
    using try_invalid by blast
  show "handle_json_line l imp na mx c db = (c, db)"
    unfolding l using bad by (rule invalid_tree_noop)
next
  assume "fst (handle_json_line_try l imp na mx c db) = Inl InvalidTreeId"
    and nonneg: "\<forall>m. mx' = Some m \<longrightarrow> 0 \<le> m"
  then obtain tree where l: "l = TreeRecord (Parsed tree)"
    and bad: "message_tree_id tree = [] \<or> message_tree_id tree \<noteq> message_id (prompt tree)"
    using try_invalid by blast
  have start: "\<not> reached mx' 0"
    using nonneg by (auto simp: reached_def split: option.splits)
  have "\<And>importer db0. import_loop importer na' mx' (pre @ l # post) 0 db0 =
                          import_loop importer na' mx' (pre @ post) 0 db0"
    unfolding l using invalid_tree_noop [OF bad] start by (rule import_loop_skip_line)
  then show "import_file (pre @ l # post) orig mname uid na' mx' dry store =
           import_file (pre @ post) orig mname uid na' mx' dry store"
    by (simp add: import_file_loop split: sum.splits prod.splits)
qed

theorem invalid_tree_id_is_absorbed_witness:
  "fst (handle_json_line_try (TreeRecord (Parsed mismatched_tree)) sample_importer 0 None 1
          sample_session_a) = Inl InvalidTreeId \<and>
   handle_json_line (TreeRecord (Parsed mismatched_tree)) sample_importer 0 None 1 sample_session_a =
     (1, sample_session_a) \<and>
   import_file [TreeRecord (Parsed (sample_tree ''a'' [sample_node ''a1'' []])), TreeRecord (Parsed mismatched_tree), TreeRecord (Parsed (sample_tree ''b'' []))]
       ''f'' None ''u'' 0 (Some 5) False empty_store =
     import_file [TreeRecord (Parsed (sample_tree ''a'' [sample_node ''a1'' []])), TreeRecord (Parsed (sample_tree ''b'' []))] ''f'' None ''u'' 0 (Some 5) False empty_store"
proof -
  have h: "fst (handle_json_line_try (TreeRecord (Parsed mismatched_tree)) sample_importer 0 None 1
          sample_session_a) = Inl InvalidTreeId"
    by code_simp
  have n: "\<forall>m. Some (5::int) = Some m \<longrightarrow> 0 \<le> m" by simp
  show ?thesis
    using h n invalid_tree_id_is_absorbed [where l = "TreeRecord (Parsed mismatched_tree)"
        and imp = sample_importer and na = 0 and mx = None and c = 1 and db = sample_session_a
        and mx' = "Some 5" and pre = "[TreeRecord (Parsed (sample_tree ''a'' [sample_node ''a1'' []]))]" and post = "[TreeRecord (Parsed (sample_tree ''b'' []))]" and orig = "''f''"
        and mname = None and uid = "''u''" and na' = 0 and dry = False and store = empty_store
        and st = GROWING]
    by simp
qed

text \<open>
  The claim as it was stated fails on the file of a tree, a tree whose id is not its
  root's id, and a second tree: the second line raises \<open>InvalidTreeId\<close>, and the run
  still returns the count 2 and commits both trees.
\<close>

theorem structural_error_aborts_counterexample:
  "fst (handle_json_line_try (TreeRecord (Parsed mismatched_tree)) sample_importer 0 None 1
          sample_session_a) = Inl InvalidTreeId \<and>
   fst (import_file [TreeRecord (Parsed (sample_tree ''a'' [sample_node ''a1'' []])), TreeRecord (Parsed mismatched_tree), TreeRecord (Parsed (sample_tree ''b'' []))]
          ''f'' None ''u'' 0 None False empty_store) = Inr 2 \<and>
   map mts_message_tree_id (message_tree_states (snd
     (import_file [TreeRecord (Parsed (sample_tree ''a'' [sample_node ''a1'' []])), TreeRecord (Parsed mismatched_tree), TreeRecord (Parsed (sample_tree ''b'' []))]
        ''f'' None ''u'' 0 None False empty_store))) = [''a'', ''b'']"
  by code_simp

text \<open>
  Claim C2. The first \<open>num_activate\<close> newly imported trees should be created
  \<open>RANKING\<close> and active, whatever message records stand between them. The code does
  not do so: the count it compares with the quota is raised by newly imported messages
  too. For the quota 1, on the file of a message record and a tree record, both are
  imported and the only tree is created \<open>BACKLOG_RANKING\<close> and not active; on the file of
  the tree record alone it is created \<open>RANKING\<close> and active.
\<close>

theorem activation_quota_failing_input:
  "fst (import_file [MessageRecord (Parsed (sample_node ''a'' [])), TreeRecord (Parsed (sample_tree ''b'' []))] ''f'' None ''u'' 1 None False empty_store) = Inr 2 \<and>
   map state (message_tree_states (snd
     (import_file [MessageRecord (Parsed (sample_node ''a'' [])), TreeRecord (Parsed (sample_tree ''b'' []))] ''f'' None ''u'' 1 None False empty_store))) =
     [BACKLOG_RANKING] \<and>
   map active (message_tree_states (snd
     (import_file [MessageRecord (Parsed (sample_node ''a'' [])), TreeRecord (Parsed (sample_tree ''b'' []))] ''f'' None ''u'' 1 None False empty_store))) = [False] \<and>
   map state (message_tree_states (snd
     (import_file [TreeRecord (Parsed (sample_tree ''b'' []))] ''f'' None ''u'' 1 None False empty_store))) = [RANKING] \<and>
   map active (message_tree_states (snd
     (import_file [TreeRecord (Parsed (sample_tree ''b'' []))] ''f'' None ''u'' 1 None False empty_store))) = [True]"
  by code_simp

text \<open>
  Claim C3. A message record with id \<open>a\<close> and a later tree record with tree id \<open>a\<close>
  should leave exactly one persisted message \<open>a\<close>. The code does not do so. The message
  record alone is imported and committed. With the tree record after it, the look-up of
  the tree state of \<open>a\<close> finds none, for the message record added none; \<open>import_tree\<close>
  is called and its flush of a second row \<open>a\<close> fails, which rolls the transaction back.
  The classifier absorbs the error, but the commit at the end of the run raises: no
  count is returned and nothing is persisted, the message \<open>a\<close> neither. The dry run of
  the same file returns the count 1.
\<close>

theorem message_then_tree_failing_input:
  "import_file [MessageRecord (Parsed (sample_node ''a'' []))] ''f'' None ''u'' 1 None False empty_store =
     (Inr 1, committed sample_session_m) \<and>
   map msg_id (messages (committed sample_session_m)) = [''a''] \<and>
   fetch_message_tree_state ''a'' sample_session_m = Inr None \<and>
   handle_json_line_try (TreeRecord (Parsed (sample_tree ''a'' [sample_node ''a1'' []]))) sample_importer 1 None 1 sample_session_m =
     (Inl IntegrityError, failed_flush sample_session_m) \<and>
   messages (failed_flush sample_session_m) = [] \<and>
   import_file [MessageRecord (Parsed (sample_node ''a'' [])), TreeRecord (Parsed (sample_tree ''a'' [sample_node ''a1'' []]))] ''f'' None ''u'' 1 None False empty_store =
     (Inl PendingRollbackError, empty_store) \<and>
   import_file [MessageRecord (Parsed (sample_node ''a'' [])), TreeRecord (Parsed (sample_tree ''a'' [sample_node ''a1'' []]))] ''f'' None ''u'' 1 None True empty_store =
     (Inr 1, empty_store)"
  by code_simp

text \<open>
  Claim C5. For a positive maximum \<open>m\<close> and a file on which the loop without a
  maximum counts at least \<open>m\<close> imported records, the run returns exactly \<open>m\<close>; it is
  the run without a maximum over a prefix of the file whose last line brought the count
  from \<open>m - 1\<close> to \<open>m\<close>, and no line after that prefix has any influence.
\<close>

theorem max_count_cutoff:
  assumes "0 < m"
    and "fst (import_tx file_in orig mname uid na None (open_session store)) = Inr n"
    and "m \<le> n"
  shows "\<exists>pre post. file_in = pre @ post \<and> pre \<noteq> [] \<and>
           import_file file_in orig mname uid na (Some m) dry store =
             import_file pre orig mname uid na None dry store \<and>
           fst (import_file file_in orig mname uid na (Some m) dry store) = Inr m \<and>
           fst (import_file (butlast pre) orig mname uid na None dry store) = Inr (m - 1) \<and>
           (\<forall>rest. import_file (pre @ rest) orig mname uid na (Some m) dry store =
                     import_file file_in orig mname uid na (Some m) dry store)"
proof -
  obtain importer db0 where init: "Importer_init (open_session store) orig mname uid = Inr (importer, db0)"
    using Importer_init_open [of store orig mname uid] by blast
  have f: "\<And>ls mx. import_file ls orig mname uid na mx dry store =
             (if dry then (Inr (fst (import_loop importer na mx ls 0 db0)), store)
              else if needs_rollback (snd (import_loop importer na mx ls 0 db0))
              then (Inl PendingRollbackError, store)
              else (Inr (fst (import_loop importer na mx ls 0 db0)),
                    committed (snd (import_loop importer na mx ls 0 db0))))"
    by (simp add: import_file_loop init split: prod.splits)
  have "fst (import_loop importer na None file_in 0 db0) = n"
    using assms(2) by (simp add: import_tx_def init split: prod.splits)
  then have "m \<le> fst (import_loop importer na None file_in 0 db0)"
    using assms(3) by simp
  with assms(1) obtain pre post where p: "file_in = pre @ post" "pre \<noteq> []"
      "import_loop importer na (Some m) file_in 0 db0 = import_loop importer na None pre 0 db0"
      "fst (import_loop importer na None pre 0 db0) = m"
      "\<not> needs_rollback (snd (import_loop importer na None pre 0 db0))"
      "fst (import_loop importer na None (butlast pre) 0 db0) = m - 1"
      "\<not> needs_rollback (snd (import_loop importer na None (butlast pre) 0 db0))"
      "\<forall>rest. import_loop importer na (Some m) (pre @ rest) 0 db0 =
                     import_loop importer na None pre 0 db0"
    using cutoff [of m 0 importer na file_in db0] by blast
  show ?thesis
    using p by (intro exI [of _ pre] exI [of _ post]) (simp add: f)
qed

theorem max_count_cutoff_witness:
  "(0::int) < 3 \<and>
   fst (import_tx six_records ''f'' None ''u'' 0 None (open_session empty_store)) = Inr 6 \<and>
   (3::int) \<le> 6 \<and>
   fst (import_file six_records ''f'' None ''u'' 0 (Some 3) False empty_store) = Inr 3 \<and>
   map msg_id (messages (snd
     (import_file six_records ''f'' None ''u'' 0 (Some 3) False empty_store))) =
     [''a'', ''b'', ''c'']"
proof -
  have h1: "(0::int) < 3" by simp
  have h2: "fst (import_tx six_records ''f'' None ''u'' 0 None (open_session empty_store)) = Inr 6"
    by code_simp
  have h3: "(3::int) \<le> 6" by simp
  have e: "map msg_id (messages (snd
     (import_file six_records ''f'' None ''u'' 0 (Some 3) False empty_store))) =
     [''a'', ''b'', ''c'']"
    by code_simp
  have c: "fst (import_file six_records ''f'' None ''u'' 0 (Some 3) False empty_store) = Inr 3"
    using max_count_cutoff [OF h1 h2 h3, of False] by blast
  show ?thesis by (intro conjI h1 h2 h3 c e)
qed

text \<open>
  Claim C8. Every message that a call of \<open>import_message\<close> leaves in the session
  under an identifier that is new (neither in the session before the call nor in the
  rows its transaction began with) is the row of a node of the record: language \<open>en\<close>
  when the node has none, synthetic unless the node says \<open>False\<close>, review count \<open>0\<close>
  when the node has none, and the importer's model name when the node has none.
\<close>

theorem inserted_message_defaults:
  assumes "r \<in> set (messages (snd (import_message imp n t p db)))"
    and "msg_id r \<notin> set (map msg_id (messages db))"
    and "msg_id r \<notin> set (map msg_id (messages (tx_begin db)))"
  shows "\<exists>n' \<in> set (subnodes n).
           msg_id r = message_id n' \<and>
           (lang n' = None \<longrightarrow> msg_lang r = ''en'') \<and>
           (synthetic n' \<noteq> Some False \<longrightarrow> msg_synthetic r) \<and>
           (synthetic n' = Some False \<longrightarrow> \<not> msg_synthetic r) \<and>
           (review_count n' = None \<longrightarrow> msg_review_count r = 0) \<and>
           (model_name n' = None \<longrightarrow> msg_model_name r = imp_model_name imp)"
proof -
  obtain res db' where out: "import_message imp n t p db = (res, db')"
    by (cases "import_message imp n t p db")
  have r': "r \<in> set (messages db')" using assms(1) by (simp add: out)
  have ext: "extends_by db db' (node_rows imp t p n)"
  proof (cases res)
    case (Inl e)
    then have "flush_failed db e db'" using out by (auto intro: import_message_Inl)
    then have "messages db' = messages db \<or> messages db' = messages (tx_begin db)"
      by (auto simp: flush_failed_def failed_flush_def split: if_splits)
    with r' assms(2,3) show ?thesis by auto
  next
    case (Inr m)
    then show ?thesis using out by (auto intro: import_message_Inr)
  qed
  have e: "map clear_count (messages db') =
             map clear_count (messages db) @ node_rows imp t p n"
    using ext by (simp add: extends_by_def)
  have "clear_count r \<in> set (map clear_count (messages db'))"
    using r' by simp
  then have "clear_count r \<in> set (map clear_count (messages db)) \<union> set (node_rows imp t p n)"
    by (simp only: e set_append)
  moreover have "clear_count r \<notin> set (map clear_count (messages db))"
  proof
    assume "clear_count r \<in> set (map clear_count (messages db))"
    then obtain r' where "r' \<in> set (messages db)" "clear_count r = clear_count r'" by auto
    then have "msg_id r = msg_id r'" by (metis msg_id_clear_count)
    with \<open>r' \<in> set (messages db)\<close> assms(2) show False by auto
  qed
  ultimately have "clear_count r \<in> set (node_rows imp t p n)"
    by simp
  then obtain n' p' where n': "n' \<in> set (subnodes n)"
    and r: "clear_count r = new_message imp n' t p'"
    using node_rows_members by blast
  have "msg_id (clear_count r) = message_id n'"
    "msg_lang (clear_count r) = str_or (lang n') ''en''"
    "msg_synthetic (clear_count r) = (case synthetic n' of None \<Rightarrow> True | Some b \<Rightarrow> b)"
    "msg_review_count (clear_count r) = int_or (review_count n') 0"
    "msg_model_name (clear_count r) = str_or_opt (model_name n') (imp_model_name imp)"
    by (simp_all add: r new_message_def)
  then have "msg_id r = message_id n'"
    "msg_lang r = str_or (lang n') ''en''"
    "msg_synthetic r = (case synthetic n' of None \<Rightarrow> True | Some b \<Rightarrow> b)"
    "msg_review_count r = int_or (review_count n') 0"
    "msg_model_name r = str_or_opt (model_name n') (imp_model_name imp)"
    by (simp_all add: clear_count_def)
  then have "msg_id r = message_id n' \<and>
           (lang n' = None \<longrightarrow> msg_lang r = ''en'') \<and>
           (synthetic n' \<noteq> Some False \<longrightarrow> msg_synthetic r) \<and>
           (synthetic n' = Some False \<longrightarrow> \<not> msg_synthetic r) \<and>
           (review_count n' = None \<longrightarrow> msg_review_count r = 0) \<and>
           (model_name n' = None \<longrightarrow> msg_model_name r = imp_model_name imp)"
    by (auto simp: str_or_def int_or_def str_or_opt_def split: option.splits)
  then show ?thesis using n' by (rule bexI)
qed

theorem inserted_message_defaults_witness:
  "new_message sample_importer (sample_node ''a'' [sample_reply]) ''a'' None
     \<in> set (messages (snd (import_message sample_importer (sample_node ''a'' [sample_reply]) ''a'' None sample_session))) \<and>
   msg_lang (new_message sample_importer (sample_node ''a'' [sample_reply]) ''a'' None) = ''en'' \<and>
   msg_synthetic (new_message sample_importer (sample_node ''a'' [sample_reply]) ''a'' None) \<and>
   msg_review_count (new_message sample_importer (sample_node ''a'' [sample_reply]) ''a'' None) = 0 \<and>
   msg_model_name (new_message sample_importer (sample_node ''a'' [sample_reply]) ''a'' None) =
     imp_model_name sample_importer \<and>
   new_message sample_importer sample_reply ''a'' (Some ''a'')
     \<in> set (messages (snd (import_message sample_importer (sample_node ''a'' [sample_reply]) ''a'' None sample_session))) \<and>
   \<not> msg_synthetic (new_message sample_importer sample_reply ''a'' (Some ''a''))"
proof -
  have h1: "new_message sample_importer (sample_node ''a'' [sample_reply]) ''a'' None
     \<in> set (messages (snd (import_message sample_importer (sample_node ''a'' [sample_reply]) ''a'' None sample_session)))"
    by code_simp
  have h2: "msg_id (new_message sample_importer (sample_node ''a'' [sample_reply]) ''a'' None)
     \<notin> set (map msg_id (messages sample_session))"
    by code_simp
  have h3: "msg_id (new_message sample_importer (sample_node ''a'' [sample_reply]) ''a'' None)
     \<notin> set (map msg_id (messages (tx_begin sample_session)))"
    by code_simp
  have k1: "new_message sample_importer sample_reply ''a'' (Some ''a'')
     \<in> set (messages (snd (import_message sample_importer (sample_node ''a'' [sample_reply]) ''a'' None sample_session)))"
    by code_simp
  have k2: "msg_id (new_message sample_importer sample_reply ''a'' (Some ''a''))
     \<notin> set (map msg_id (messages sample_session))"
    by code_simp
  have k3: "msg_id (new_message sample_importer sample_reply ''a'' (Some ''a''))
     \<notin> set (map msg_id (messages (tx_begin sample_session)))"
    by code_simp
  have s: "subnodes (sample_node ''a'' [sample_reply]) =
             [sample_node ''a'' [sample_reply], sample_reply]"
    by code_simp
  have f: "message_id (sample_node ''a'' [sample_reply]) = ''a''" "message_id sample_reply = ''r''"
    "lang (sample_node ''a'' [sample_reply]) = None"
    "synthetic (sample_node ''a'' [sample_reply]) = None"
    "review_count (sample_node ''a'' [sample_reply]) = None"
    "model_name (sample_node ''a'' [sample_reply]) = None"
    "synthetic sample_reply = Some False"
    by (simp_all add: sample_node_def sample_reply_def)
  have c1: "msg_lang (new_message sample_importer (sample_node ''a'' [sample_reply]) ''a'' None) = ''en'' \<and>
   msg_synthetic (new_message sample_importer (sample_node ''a'' [sample_reply]) ''a'' None) \<and>
   msg_review_count (new_message sample_importer (sample_node ''a'' [sample_reply]) ''a'' None) = 0 \<and>
   msg_model_name (new_message sample_importer (sample_node ''a'' [sample_reply]) ''a'' None) =
     imp_model_name sample_importer"
    using inserted_message_defaults [OF h1 h2 h3] by (simp add: s f)
  have c2: "\<not> msg_synthetic (new_message sample_importer sample_reply ''a'' (Some ''a''))"
    using inserted_message_defaults [OF k1 k2 k3] by (simp add: s f)
  show ?thesis using h1 k1 c1 c2 by (intro conjI) simp_all
qed

text \<open>
  Claim C9. When \<open>import_tree\<close> raises \<open>StateNotSupported\<close>, the state was neither
  \<open>BACKLOG_RANKING\<close> nor \<open>RANKING\<close>, the tree id was the root's id, and the rows of the
  root and of all its replies are in the session already (no tree state is): the
  session is not the one before the call. And a call with a matching tree id and such a
  state, in which the messages can be inserted, raises that error after inserting them.
\<close>

theorem unsupported_state_after_insert:
  "(import_tree imp tree st db = (Inl (StateNotSupported st'), db') \<longrightarrow>
      st' = st \<and> st \<noteq> BACKLOG_RANKING \<and> st \<noteq> RANKING \<and>
      message_tree_id tree = message_id (prompt tree) \<and>
      map clear_count (messages db') =
        map clear_count (messages db) @
          node_rows imp (message_id (prompt tree)) None (prompt tree) \<and>
      message_tree_states db' = message_tree_states db \<and>
      db' \<noteq> db) \<and>
   (message_tree_id tree \<noteq> [] \<and> message_tree_id tree = message_id (prompt tree) \<and>
    st \<noteq> BACKLOG_RANKING \<and> st \<noteq> RANKING \<and>
    fst (import_message imp (prompt tree) (message_id (prompt tree)) None db) = Inr m \<longrightarrow>
      import_tree imp tree st db =
        (Inl (StateNotSupported st),
         snd (import_message imp (prompt tree) (message_id (prompt tree)) None db)))"
proof (intro conjI impI)
  let ?n = "prompt tree"
  assume a: "import_tree imp tree st db = (Inl (StateNotSupported st'), db')"
  obtain res db1 where im: "import_message imp ?n (message_id ?n) None db = (res, db1)"
    by (cases "import_message imp ?n (message_id ?n) None db")
  have ok: "message_tree_id tree \<noteq> []" "message_tree_id tree = message_id ?n"
    using a by (auto simp: import_tree_def split: if_splits)
  have "\<And>e. res = Inl e \<Longrightarrow> e = IntegrityError \<or> e = PendingRollbackError"
    using import_message_error [of imp ?n "message_id ?n" None db] im by simp
  with a ok im obtain root where res: "res = Inr root"
    by (cases res) (auto simp: import_tree_def)
  from a ok im res have st: "st' = st" "st \<noteq> BACKLOG_RANKING" "st \<noteq> RANKING" and db': "db' = db1"
    by (auto simp: import_tree_def Let_def split: if_splits sum.splits prod.splits
             dest: add_message_tree_state_Inl)
  have ext: "extends_by db db1 (node_rows imp (message_id ?n) None ?n)"
    using im res by (auto intro: import_message_Inr)
  show "st' = st" "st \<noteq> BACKLOG_RANKING" "st \<noteq> RANKING"
    "message_tree_id tree = message_id ?n" by (fact st ok)+
  show rows: "map clear_count (messages db') =
        map clear_count (messages db) @ node_rows imp (message_id ?n) None ?n"
    using ext by (simp add: extends_by_def db')
  show "message_tree_states db' = message_tree_states db"
    using ext by (simp add: extends_by_def db')
  have "node_rows imp (message_id ?n) None ?n \<noteq> []"
    by (simp add: node_rows_unfold)
  with rows have "map clear_count (messages db') \<noteq> map clear_count (messages db)" by simp
  then show "db' \<noteq> db" by auto
next
  let ?n = "prompt tree"
  assume "message_tree_id tree \<noteq> [] \<and> message_tree_id tree = message_id ?n \<and>
    st \<noteq> BACKLOG_RANKING \<and> st \<noteq> RANKING \<and>
    fst (import_message imp ?n (message_id ?n) None db) = Inr m"
  then show "import_tree imp tree st db =
        (Inl (StateNotSupported st), snd (import_message imp ?n (message_id ?n) None db))"
    by (cases "import_message imp ?n (message_id ?n) None db") (auto simp: import_tree_def)
qed

theorem unsupported_state_after_insert_witness:
  "import_tree sample_importer (sample_tree ''a'' [sample_node ''a1'' []]) GROWING sample_session =
     (Inl (StateNotSupported GROWING), sample_session_g) \<and>
   map msg_id (messages sample_session) = [] \<and>
   map msg_id (messages sample_session_g) = [''a'', ''a1''] \<and>
   message_tree_states sample_session_g = [] \<and>
   sample_session_g \<noteq> sample_session"
proof -
  have h1: "import_tree sample_importer (sample_tree ''a'' [sample_node ''a1'' []]) GROWING
              sample_session = (Inl (StateNotSupported GROWING), sample_session_g)"
    by code_simp
  have h2: "message_tree_id (sample_tree ''a'' [sample_node ''a1'' []]) \<noteq> [] \<and>
            message_tree_id (sample_tree ''a'' [sample_node ''a1'' []]) =
              message_id (prompt (sample_tree ''a'' [sample_node ''a1'' []])) \<and>
            GROWING \<noteq> BACKLOG_RANKING \<and> GROWING \<noteq> RANKING \<and>
            fst (import_message sample_importer (prompt (sample_tree ''a'' [sample_node ''a1'' []]))
                   (message_id (prompt (sample_tree ''a'' [sample_node ''a1'' []]))) None
                   sample_session) =
              Inr (new_message sample_importer (sample_node ''a'' [sample_node ''a1'' []]) ''a'' None)"
    by code_simp
  have e: "map msg_id (messages sample_session) = []"
    "map msg_id (messages sample_session_g) = [''a'', ''a1'']"
    "message_tree_states sample_session = []"
    by code_simp+
  show ?thesis
    using h1 h2 unsupported_state_after_insert [where imp = sample_importer
        and tree = "sample_tree ''a'' [sample_node ''a1'' []]" and st = GROWING
        and db = sample_session and st' = GROWING and db' = sample_session_g
        and m = "new_message sample_importer (sample_node ''a'' [sample_node ''a1'' []]) ''a'' None"]
    by (simp add: e)
qed

end
